theory Spec2Isabelle
  imports Complex_Main "HOL-Library.AList" "HOL-Library.Multiset"
begin

section \<open>Python runtime: floats, rounding, library functions\<close>

text \<open>
  A Python float is a double. A finite double is modelled as the real number it denotes;
  infinities and NaN are not represented. The arithmetic on doubles is a parameter of
  type \<open>float_ops\<close>: \<open>fl_rnd\<close> takes the exact result of an addition, subtraction,
  multiplication or division to the double the operation returns, and the other fields
  are the functions of the \<^verbatim>\<open>math\<close> module and the power \<^verbatim>\<open>x ** 2\<close>. Nothing is assumed
  of them, so a statement made for every \<open>ops\<close> holds however the doubles round.
  \<^verbatim>\<open>math.sqrt\<close> raises \<^verbatim>\<open>ValueError\<close> on a negative argument; this is the one error the
  arithmetic of the modelled code can raise on finite values, besides the division by
  zero. A \<^verbatim>\<open>datetime\<close> is a real number of seconds since a fixed epoch.
\<close>

type_synonym datetime = real

datatype py_error = ZeroDivisionError | KeyError string | ValueError string

fun py_str :: "py_error \<Rightarrow> string" where
  \<comment> \<open>\<^verbatim>\<open>str(e)\<close>\<close>
  "py_str (ValueError msg) = msg"
| "py_str ZeroDivisionError = ''float division by zero''"
| "py_str (KeyError k) = CHR 0x27 # k @ [CHR 0x27]"

record float_ops =
  fl_rnd :: "real \<Rightarrow> real"
  fl_sin :: "real \<Rightarrow> real"
  fl_cos :: "real \<Rightarrow> real"
  fl_pow2 :: "real \<Rightarrow> real"
  fl_sqrt :: "real \<Rightarrow> real"
  fl_atan2 :: "real \<Rightarrow> real \<Rightarrow> real"

definition deg_to_rad :: real where
  \<comment> \<open>the double \<^verbatim>\<open>pi / 180\<close> that \<^verbatim>\<open>math.radians\<close> multiplies by, 0.017453292519943295\<close>
  "deg_to_rad = 5030569068109113 / 288230376151711744"

definition radians :: "float_ops \<Rightarrow> real \<Rightarrow> real" where
  "radians ops x = fl_rnd ops (x * deg_to_rad)"

definition py_sqrt :: "float_ops \<Rightarrow> real \<Rightarrow> py_error + real" where
  "py_sqrt ops x =
     (if x < 0 then Inl (ValueError ''math domain error'') else Inr (fl_sqrt ops x))"

definition py_int :: "real \<Rightarrow> int" where
  \<comment> \<open>\<^verbatim>\<open>int(x)\<close> on a float: truncation toward zero.\<close>
  "py_int x = (if 0 \<le> x then \<lfloor>x\<rfloor> else \<lceil>x\<rceil>)"

definition round_half_even :: "real \<Rightarrow> int" where
  "round_half_even x =
     (let f = \<lfloor>x\<rfloor>; d = x - of_int f
      in if d < 1 / 2 then f
         else if 1 / 2 < d then f + 1
         else if even f then f else f + 1)"

definition py_round :: "float_ops \<Rightarrow> real \<Rightarrow> nat \<Rightarrow> real" where
  \<comment> \<open>\<^verbatim>\<open>round(x, n)\<close>: the exact value of the double \<open>x\<close> rounded to \<open>n\<close> decimals, ties to
      the even neighbour, and the double nearest to that decimal\<close>
  "py_round ops x n = fl_rnd ops (of_int (round_half_even (x * 10 ^ n)) / 10 ^ n)"

definition py_last_n :: "nat \<Rightarrow> 'a list \<Rightarrow> 'a list" where
  \<comment> \<open>the slice \<^verbatim>\<open>xs[-n:]\<close> for \<open>n > 0\<close>\<close>
  "py_last_n n xs = drop (length xs - n) xs"

subsection \<open>Two arithmetics\<close>

text \<open>
  \<open>exact_ops\<close> is the arithmetic without rounding error. \<open>double_ops\<close> is binary64
  arithmetic: \<open>ieee_round\<close> rounds to the nearest double, ties to even (in the normal
  range, overflow apart), the square root, the power and the arc tangent are correctly
  rounded, and so are sine and cosine, whose values at the three arguments evaluated
  further down are written out.
\<close>

definition atan2 :: "real \<Rightarrow> real \<Rightarrow> real" where
  \<comment> \<open>the angle of the point \<open>(x, y)\<close>, in \<open>(-pi, pi]\<close>\<close>
  "atan2 y x =
     (if 0 < x then arctan (y / x)
      else if x < 0 then (if 0 \<le> y then arctan (y / x) + pi else arctan (y / x) - pi)
      else if 0 < y then pi / 2
      else if y < 0 then - (pi / 2)
      else 0)"

definition exact_ops :: float_ops where
  "exact_ops = \<lparr>fl_rnd = (\<lambda>x. x), fl_sin = sin, fl_cos = cos, fl_pow2 = (\<lambda>x. x * x),
                 fl_sqrt = sqrt, fl_atan2 = atan2\<rparr>"

definition pow2 :: "int \<Rightarrow> real" where
  "pow2 e = (if 0 \<le> e then 2 ^ nat e else 1 / 2 ^ nat (- e))"

definition ieee_round :: "real \<Rightarrow> real" where
  "ieee_round x =
     (if x = 0 then 0
      else let e = \<lfloor>log 2 \<bar>x\<bar>\<rfloor>; ulp = pow2 (e - 52)
           in of_int (round_half_even (x / ulp)) * ulp)"

definition double_ops :: float_ops where
  "double_ops =
     \<lparr>fl_rnd = ieee_round,
      fl_sin = (\<lambda>x. if x = 6445416618514801 / 4503599627370496
                     then 4459770905381437 / 4503599627370496
                     else if x = 884279719003555 / 562949953421312 then 1
                     else ieee_round (sin x)),
      fl_cos = (\<lambda>x. if \<bar>x\<bar> = 6445416618514801 / 4503599627370496
                     then 2507119702494989 / 18014398509481984
                     else ieee_round (cos x)),
      fl_pow2 = (\<lambda>x. ieee_round (x * x)),
      fl_sqrt = (\<lambda>x. ieee_round (sqrt x)),
      fl_atan2 = (\<lambda>y x. ieee_round (atan2 y x))\<rparr>"

section \<open>GPS tracker (gps_tracker.py)\<close>

record Location =
  latitude :: real
  longitude :: real
  timestamp :: datetime
  accuracy :: real
  heading :: real
  speed :: real

record Route =
  start_location :: Location
  end_location :: Location
  waypoints :: "Location list"
  distance_km :: real
  duration_minutes :: real
  estimated_fare :: real

record Geofence =
  gf_name :: string
  center :: Location
  radius_meters :: real
  created_at :: datetime

text \<open>
  The dictionaries of \<^verbatim>\<open>GPSTracker\<close> are association lists in insertion order, which
  is the order Python iterates a \<^verbatim>\<open>dict\<close> in; \<open>AList.update\<close> overwrites a key in
  place and appends a new key at the end, as item assignment does.
\<close>

record GPSTracker =
  driver_locations :: "(string \<times> Location list) list"
  passenger_locations :: "(string \<times> Location) list"
  geofences :: "(string \<times> Geofence) list"

definition gps_init :: GPSTracker where
  "gps_init = \<lparr>driver_locations = [], passenger_locations = [], geofences = []\<rparr>"

definition track :: "GPSTracker \<Rightarrow> string \<Rightarrow> Location list" where
  \<comment> \<open>the entries stored for a driver, none when the driver is not a key\<close>
  "track st driver_id =
     (case map_of (driver_locations st) driver_id of None \<Rightarrow> [] | Some locs \<Rightarrow> locs)"

definition haversine_a :: "float_ops \<Rightarrow> Location \<Rightarrow> Location \<Rightarrow> real" where
  \<comment> \<open>the local variable \<^verbatim>\<open>a\<close> of \<^verbatim>\<open>calculate_distance\<close>\<close>
  "haversine_a ops loc1 loc2 =
     (let lat1_rad = radians ops (latitude loc1);
          lat2_rad = radians ops (latitude loc2);
          delta_lat = radians ops (fl_rnd ops (latitude loc2 - latitude loc1));
          delta_lon = radians ops (fl_rnd ops (longitude loc2 - longitude loc1))
      in fl_rnd ops
           (fl_pow2 ops (fl_sin ops (fl_rnd ops (delta_lat / 2)))
            + fl_rnd ops
                (fl_rnd ops (fl_cos ops lat1_rad * fl_cos ops lat2_rad)
                 * fl_pow2 ops (fl_sin ops (fl_rnd ops (delta_lon / 2))))))"

definition calculate_distance :: "float_ops \<Rightarrow> Location \<Rightarrow> Location \<Rightarrow> py_error + real" where
  "calculate_distance ops loc1 loc2 =
     (let R = 6371;
          a = haversine_a ops loc1 loc2
      in case py_sqrt ops a of
           Inl e \<Rightarrow> Inl e
         | Inr root_a \<Rightarrow>
            (case py_sqrt ops (fl_rnd ops (1 - a)) of
               Inl e \<Rightarrow> Inl e
             | Inr root_1a \<Rightarrow>
                 let c = fl_rnd ops (2 * fl_atan2 ops root_a root_1a)
                 in Inr (fl_rnd ops (R * c))))"

definition calculate_speed :: "float_ops \<Rightarrow> Location \<Rightarrow> Location \<Rightarrow> py_error + real" where
  "calculate_speed ops loc1 loc2 =
     (case calculate_distance ops loc1 loc2 of
        Inl e \<Rightarrow> Inl e
      | Inr dist_km \<Rightarrow>
          let time_diff = fl_rnd ops (fl_rnd ops (timestamp loc2 - timestamp loc1) / 3600)
          in Inr (if 0 < time_diff then fl_rnd ops (dist_km / time_diff) else 0))"

definition calculate_eta :: "float_ops \<Rightarrow> Location \<Rightarrow> Location \<Rightarrow> py_error + int" where
  "calculate_eta ops driver_location destination =
     (case calculate_distance ops driver_location destination of
        Inl e \<Rightarrow> Inl e
      | Inr dist_km \<Rightarrow>
          let average_speed = 25;
              eta_hours = fl_rnd ops (dist_km / average_speed);
              eta_minutes = py_int (fl_rnd ops (eta_hours * 60))
          in Inr (max (eta_minutes + 2) 3))"

definition get_surge_multiplier :: "float_ops \<Rightarrow> int \<Rightarrow> real" where
  \<comment> \<open>the hour is \<^verbatim>\<open>datetime.now().hour\<close>; the literal \<^verbatim>\<open>1.3\<close> is the double nearest to it\<close>
  "get_surge_multiplier ops current_hour =
     (if (7 \<le> current_hour \<and> current_hour \<le> 9) \<or> (17 \<le> current_hour \<and> current_hour \<le> 19)
      then 3 / 2
      else if 23 \<le> current_hour \<or> current_hour \<le> 3 then fl_rnd ops (13 / 10)
      else 1)"

definition calculate_fare :: "float_ops \<Rightarrow> int \<Rightarrow> real \<Rightarrow> real \<Rightarrow> real" where
  "calculate_fare ops current_hour dist_km dur_minutes =
     (let base_fare = 5;
          per_km_rate = 5 / 2;
          per_minute_rate = 1 / 2;
          distance_cost = fl_rnd ops (dist_km * per_km_rate);
          time_cost = fl_rnd ops (dur_minutes * per_minute_rate);
          total_fare = fl_rnd ops (fl_rnd ops (base_fare + distance_cost) + time_cost);
          surge_multiplier = get_surge_multiplier ops current_hour
      in py_round ops (fl_rnd ops (total_fare * surge_multiplier)) 2)"

record geofence_event =
  ev_type :: string
  ev_geofence_id :: string
  ev_geofence_name :: string
  ev_driver_id :: string
  ev_timestamp :: datetime

fun geofence_events ::
  "float_ops \<Rightarrow> datetime \<Rightarrow> string \<Rightarrow> Location \<Rightarrow> (string \<times> Geofence) list
     \<Rightarrow> py_error + geofence_event list" where
  \<comment> \<open>the loop of \<^verbatim>\<open>check_geofences\<close>, in the order of the dictionary\<close>
  "geofence_events ops now driver_id location [] = Inr []"
| "geofence_events ops now driver_id location ((geofence_id, geofence) # rest) =
     (case calculate_distance ops location (center geofence) of
        Inl e \<Rightarrow> Inl e
      | Inr d \<Rightarrow>
         (case geofence_events ops now driver_id location rest of
            Inl e \<Rightarrow> Inl e
          | Inr events \<Rightarrow>
              Inr (if fl_rnd ops (d * 1000) \<le> radius_meters geofence
                   then \<lparr>ev_type = ''geofence_enter'', ev_geofence_id = geofence_id,
                         ev_geofence_name = gf_name geofence, ev_driver_id = driver_id,
                         ev_timestamp = now\<rparr> # events
                   else events)))"

definition check_geofences ::
  "float_ops \<Rightarrow> datetime \<Rightarrow> GPSTracker \<Rightarrow> string \<Rightarrow> Location
     \<Rightarrow> py_error + geofence_event list" where
  "check_geofences ops now st driver_id location =
     geofence_events ops now driver_id location (geofences st)"

datatype update_result =
  UpdateOk string Location "geofence_event list"
| UpdateFailed string

text \<open>
  \<^verbatim>\<open>update_driver_location\<close> appends the caller's \<^verbatim>\<open>Location\<close> object to the track and
  caps the track before anything else; then it computes the speed and assigns it to the
  object, which the list holds too, so that the stored last entry carries the speed; then
  it checks the geofences. An exception of the two later steps is caught by the
  \<^verbatim>\<open>except\<close> branch, which answers \<^verbatim>\<open>success: False\<close> with \<^verbatim>\<open>str(e)\<close> and leaves the
  track as the steps before the exception made it.
\<close>

definition update_driver_location ::
  "float_ops \<Rightarrow> datetime \<Rightarrow> string \<Rightarrow> Location \<Rightarrow> GPSTracker
     \<Rightarrow> GPSTracker \<times> update_result" where
  "update_driver_location ops now driver_id location st =
     (let locs0 = track st driver_id;
          locs1 = locs0 @ [location];
          locs2 = (if 100 < length locs1 then py_last_n 100 locs1 else locs1);
          st1 = st\<lparr>driver_locations := AList.update driver_id locs2 (driver_locations st)\<rparr>
      in case (if 1 < length locs2
               then (case calculate_speed ops (locs2 ! (length locs2 - 2)) location of
                       Inl e \<Rightarrow> Inl e
                     | Inr s \<Rightarrow> Inr (location\<lparr>speed := s\<rparr>))
               else Inr location) of
           Inl e \<Rightarrow> (st1, UpdateFailed (py_str e))
         | Inr location' \<Rightarrow>
             let locs3 = locs2[length locs2 - 1 := location'];
                 st2 = st\<lparr>driver_locations :=
                           AList.update driver_id locs3 (driver_locations st)\<rparr>
             in (case check_geofences ops now st driver_id location' of
                   Inl e \<Rightarrow> (st2, UpdateFailed (py_str e))
                 | Inr events \<Rightarrow> (st2, UpdateOk driver_id location' events)))"

record nearby_driver =
  nd_driver_id :: string
  nd_latitude :: real
  nd_longitude :: real
  nd_timestamp :: datetime
  nd_distance_km :: real
  nd_eta_minutes :: int
  nd_heading :: real
  nd_speed :: real

definition nearby_entry ::
  "float_ops \<Rightarrow> string \<Rightarrow> Location \<Rightarrow> real \<Rightarrow> int \<Rightarrow> nearby_driver" where
  \<comment> \<open>the dictionary appended for one driver, given its distance and ETA\<close>
  "nearby_entry ops driver_id latest_location distance eta_minutes =
     \<lparr>nd_driver_id = driver_id,
      nd_latitude = latitude latest_location,
      nd_longitude = longitude latest_location,
      nd_timestamp = timestamp latest_location,
      nd_distance_km = py_round ops distance 2,
      nd_eta_minutes = eta_minutes,
      nd_heading = heading latest_location,
      nd_speed = speed latest_location\<rparr>"

fun collect_nearby ::
  "float_ops \<Rightarrow> Location \<Rightarrow> real \<Rightarrow> (string \<times> Location list) list
     \<Rightarrow> py_error + nearby_driver list" where
  \<comment> \<open>the loop of \<^verbatim>\<open>find_nearby_drivers\<close>; an exception ends the whole call\<close>
  "collect_nearby ops passenger_location radius_km [] = Inr []"
| "collect_nearby ops passenger_location radius_km ((driver_id, locations) # rest) =
     (if locations = [] then collect_nearby ops passenger_location radius_km rest
      else
        case calculate_distance ops passenger_location (last locations) of
          Inl e \<Rightarrow> Inl e
        | Inr distance \<Rightarrow>
            if distance \<le> radius_km then
              (case calculate_eta ops (last locations) passenger_location of
                 Inl e \<Rightarrow> Inl e
               | Inr eta_minutes \<Rightarrow>
                  (case collect_nearby ops passenger_location radius_km rest of
                     Inl e \<Rightarrow> Inl e
                   | Inr found \<Rightarrow>
                       Inr (nearby_entry ops driver_id (last locations) distance eta_minutes
                              # found)))
            else collect_nearby ops passenger_location radius_km rest)"

definition find_nearby_drivers ::
  "float_ops \<Rightarrow> GPSTracker \<Rightarrow> Location \<Rightarrow> real \<Rightarrow> py_error + nearby_driver list" where
  \<comment> \<open>\<^verbatim>\<open>list.sort\<close> is stable, as \<open>sort_key\<close> is\<close>
  "find_nearby_drivers ops st passenger_location radius_km =
     (case collect_nearby ops passenger_location radius_km (driver_locations st) of
        Inl e \<Rightarrow> Inl e
      | Inr nearby_drivers \<Rightarrow> Inr (sort_key nd_distance_km nearby_drivers))"

text \<open>
  The answer of the routing provider, \<^verbatim>\<open>requests.get(url, params).json()\<close>: the call or
  the decoding raises, or a document arrives with a \<^verbatim>\<open>status\<close> and, when the fields the
  code reads are all present and numeric, the first leg of the first route. A document
  where one of them is missing makes the code raise inside its \<^verbatim>\<open>try\<close>. The optional
  \<^verbatim>\<open>waypoints\<close> argument of \<^verbatim>\<open>calculate_route\<close> only goes into the request, so the model
  does not take it; \<open>current_hour\<close> and \<open>now\<close> are the readings of \<^verbatim>\<open>datetime.now()\<close>.
  The straight-line calculation stands in the \<^verbatim>\<open>else\<close> branch inside the \<^verbatim>\<open>try\<close> and
  again in the \<^verbatim>\<open>except\<close> handler: an exception of the first is caught and the second
  runs; an exception of the second leaves the function.
\<close>

record directions_leg =
  leg_distance_value :: real
  leg_duration_value :: real
  leg_steps :: "(real \<times> real) list"

datatype provider_outcome =
  ProviderRaises
| ProviderJson string "directions_leg option"

definition fallback_route ::
  "float_ops \<Rightarrow> int \<Rightarrow> Location \<Rightarrow> Location \<Rightarrow> py_error + Route" where
  "fallback_route ops current_hour start_loc end_loc =
     (case calculate_distance ops start_loc end_loc of
        Inl e \<Rightarrow> Inl e
      | Inr dist_km \<Rightarrow>
          let dur_minutes = fl_rnd ops (dist_km * 2);
              fare = calculate_fare ops current_hour dist_km dur_minutes
          in Inr \<lparr>start_location = start_loc, end_location = end_loc,
                  waypoints = [start_loc, end_loc], distance_km = dist_km,
                  duration_minutes = dur_minutes, estimated_fare = fare\<rparr>)"

definition calculate_route ::
  "float_ops \<Rightarrow> provider_outcome \<Rightarrow> int \<Rightarrow> datetime \<Rightarrow> Location \<Rightarrow> Location
     \<Rightarrow> py_error + Route" where
  "calculate_route ops outcome current_hour now start_loc end_loc =
     (case outcome of
        ProviderRaises \<Rightarrow> fallback_route ops current_hour start_loc end_loc
      | ProviderJson status leg_opt \<Rightarrow>
          if status = ''OK'' then
            (case leg_opt of
               None \<Rightarrow> fallback_route ops current_hour start_loc end_loc
             | Some leg \<Rightarrow>
                 let dist_km = fl_rnd ops (leg_distance_value leg / 1000);
                     dur_minutes = fl_rnd ops (leg_duration_value leg / 60);
                     fare = calculate_fare ops current_hour dist_km dur_minutes;
                     route_waypoints =
                       map (\<lambda>(lat, lng).
                              \<lparr>latitude = lat, longitude = lng, timestamp = now,
                               accuracy = 0, heading = 0, speed = 0\<rparr>)
                           (leg_steps leg)
                 in Inr \<lparr>start_location = start_loc, end_location = end_loc,
                         waypoints = route_waypoints, distance_km = dist_km,
                         duration_minutes = dur_minutes, estimated_fare = fare\<rparr>)
          else
            (case fallback_route ops current_hour start_loc end_loc of
               Inr route \<Rightarrow> Inr route
             | Inl e \<Rightarrow> fallback_route ops current_hour start_loc end_loc))"

record ride_progress =
  rp_ride_id :: string
  rp_driver_id :: string
  rp_current_location :: Location
  rp_progress_percentage :: real
  rp_remaining_distance_km :: real
  rp_estimated_remaining_minutes :: int
  rp_current_speed :: real

datatype progress_result =
  ProgressFailed string
| ProgressOk ride_progress

definition track_ride_progress ::
  "float_ops \<Rightarrow> GPSTracker \<Rightarrow> string \<Rightarrow> string \<Rightarrow> Route \<Rightarrow> py_error + progress_result" where
  "track_ride_progress ops st ride_id driver_id route =
     (if map_of (driver_locations st) driver_id = None \<or> track st driver_id = []
      then Inr (ProgressFailed ''No driver location available'')
      else
        let current_location = last (track st driver_id);
            total_distance = distance_km route
        in case calculate_distance ops current_location (end_location route) of
             Inl e \<Rightarrow> Inl e
           | Inr distance_to_destination \<Rightarrow>
               if total_distance = 0 then Inl ZeroDivisionError
               else
                 let progress_percentage =
                       max 0 (min 100
                         (fl_rnd ops
                            (fl_rnd ops
                               (fl_rnd ops (total_distance - distance_to_destination)
                                / total_distance)
                             * 100)));
                     remaining_distance = distance_to_destination
                 in (case calculate_eta ops current_location (end_location route) of
                       Inl e \<Rightarrow> Inl e
                     | Inr estimated_remaining_minutes \<Rightarrow>
                         Inr (ProgressOk
                           \<lparr>rp_ride_id = ride_id, rp_driver_id = driver_id,
                            rp_current_location = current_location,
                            rp_progress_percentage = py_round ops progress_percentage 1,
                            rp_remaining_distance_km = py_round ops remaining_distance 2,
                            rp_estimated_remaining_minutes = estimated_remaining_minutes,
                            rp_current_speed = speed current_location\<rparr>)))"

section \<open>Security manager (security_manager.py)\<close>

subsection \<open>Tokens\<close>

text \<open>
  The PyJWT library is not part of the repository. Its contract is modelled: a token is
  the payload together with the key it was signed with, so a signature validates under
  that key and no other, and every other string is malformed. \<^verbatim>\<open>jwt.encode\<close> turns a
  \<^verbatim>\<open>datetime\<close> claim into whole seconds; \<^verbatim>\<open>jwt.decode\<close> checks the signature, then
  \<^verbatim>\<open>iat\<close>, then \<^verbatim>\<open>exp\<close>, against the UTC clock.
\<close>

record jwt_payload =
  p_user_id :: int
  p_email :: string
  p_user_type :: "string option"
  p_iat :: int
  p_exp :: int
  p_type :: string

datatype token = Signed (token_payload: jwt_payload) (token_key: string) | Malformed string

datatype jwt_error = ExpiredSignatureError | InvalidTokenError

definition timegm :: "datetime \<Rightarrow> int" where
  "timegm t = \<lfloor>t\<rfloor>"

definition jwt_encode :: "jwt_payload \<Rightarrow> string \<Rightarrow> token" where
  "jwt_encode payload key = Signed payload key"

definition jwt_decode :: "datetime \<Rightarrow> token \<Rightarrow> string \<Rightarrow> jwt_error + jwt_payload" where
  "jwt_decode now tok key =
     (case tok of
        Malformed s \<Rightarrow> Inl InvalidTokenError
      | Signed payload k \<Rightarrow>
          if k \<noteq> key then Inl InvalidTokenError
          else if now < of_int (p_iat payload) then Inl InvalidTokenError
          else if of_int (p_exp payload) \<le> now then Inl ExpiredSignatureError
          else Inr payload)"

definition fromtimestamp :: "int \<Rightarrow> int \<Rightarrow> datetime" where
  \<comment> \<open>\<^verbatim>\<open>datetime.fromtimestamp(ts)\<close>: the naive local wall-clock time of the POSIX time
      \<open>ts\<close>, on a server whose local time is \<open>utc_offset\<close> seconds ahead of UTC\<close>
  "fromtimestamp utc_offset ts = of_int ts + of_int utc_offset"

definition access_token_expiry :: int where
  "access_token_expiry = 3600"

definition refresh_token_expiry :: int where
  "refresh_token_expiry = 30 * 86400"

record user_data =
  ud_id :: "int option"
  ud_email :: "string option"
  ud_user_type :: "string option"

text \<open>
  A logged event keeps its type, time, severity and the string fields of its data; the
  request count and the second copy of the time inside the data are left out.
\<close>

record security_event =
  event_type :: string
  se_timestamp :: datetime
  se_data :: "(string \<times> string) list"
  severity :: string

text \<open>
  \<^verbatim>\<open>rate_limits\<close> and \<^verbatim>\<open>suspicious_activities\<close> are \<^verbatim>\<open>defaultdict\<close>s: total functions
  with the default (an empty deque, zero) at every key not yet written.
\<close>

record SecurityManager =
  jwt_secret_key :: string
  rate_limits :: "string \<Rightarrow> real list"
  security_events :: "security_event list"
  blocked_ips :: "string set"
  suspicious_activities :: "string \<Rightarrow> int"

definition security_init :: "string \<Rightarrow> SecurityManager" where
  "security_init key =
     \<lparr>jwt_secret_key = key, rate_limits = (\<lambda>c. []), security_events = [],
      blocked_ips = {}, suspicious_activities = (\<lambda>ip. 0)\<rparr>"

datatype tokens_result =
  TokensOk token token int string
| TokensFailed py_error

definition generate_tokens :: "SecurityManager \<Rightarrow> datetime \<Rightarrow> user_data \<Rightarrow> tokens_result" where
  \<comment> \<open>\<open>current_time\<close> is \<^verbatim>\<open>datetime.utcnow()\<close>\<close>
  "generate_tokens sm current_time ud =
     (case ud_id ud of
        None \<Rightarrow> TokensFailed (KeyError ''id'')
      | Some uid \<Rightarrow>
         (case ud_email ud of
            None \<Rightarrow> TokensFailed (KeyError ''email'')
          | Some email \<Rightarrow>
              let access_payload =
                    \<lparr>p_user_id = uid, p_email = email,
                     p_user_type =
                       Some (case ud_user_type ud of None \<Rightarrow> ''passenger'' | Some t \<Rightarrow> t),
                     p_iat = timegm current_time,
                     p_exp = timegm (current_time + of_int access_token_expiry),
                     p_type = ''access''\<rparr>;
                  refresh_payload =
                    \<lparr>p_user_id = uid, p_email = email,
                     p_user_type = None,
                     p_iat = timegm current_time,
                     p_exp = timegm (current_time + of_int refresh_token_expiry),
                     p_type = ''refresh''\<rparr>;
                  access_token = jwt_encode access_payload (jwt_secret_key sm);
                  refresh_token = jwt_encode refresh_payload (jwt_secret_key sm)
              in TokensOk access_token refresh_token access_token_expiry ''Bearer''))"

datatype verify_result =
  VerifyOk jwt_payload
| VerifyFailed string

definition verify_token ::
  "SecurityManager \<Rightarrow> int \<Rightarrow> datetime \<Rightarrow> token \<Rightarrow> string \<Rightarrow> verify_result" where
  \<comment> \<open>\<open>now\<close> is the UTC clock, read by \<^verbatim>\<open>jwt.decode\<close> and by \<^verbatim>\<open>datetime.utcnow()\<close>\<close>
  "verify_token sm utc_offset now tok token_type =
     (case jwt_decode now tok (jwt_secret_key sm) of
        Inl ExpiredSignatureError \<Rightarrow> VerifyFailed ''Token expired''
      | Inl InvalidTokenError \<Rightarrow> VerifyFailed ''Invalid token''
      | Inr payload \<Rightarrow>
          if p_type payload \<noteq> token_type then VerifyFailed ''Invalid token type''
          else if fromtimestamp utc_offset (p_exp payload) < now
          then VerifyFailed ''Token expired''
          else VerifyOk payload)"

datatype refresh_result =
  RefreshOk token int
| RefreshFailed string
| RefreshRaised py_error

definition refresh_access_token ::
  "SecurityManager \<Rightarrow> int \<Rightarrow> datetime \<Rightarrow> token \<Rightarrow> refresh_result" where
  "refresh_access_token sm utc_offset now refresh_token =
     (case verify_token sm utc_offset now refresh_token ''refresh'' of
        VerifyFailed msg \<Rightarrow> RefreshFailed msg
      | VerifyOk payload \<Rightarrow>
          let ud = \<lparr>ud_id = Some (p_user_id payload),
                    ud_email = Some (p_email payload),
                    ud_user_type =
                      Some (case p_user_type payload of
                              None \<Rightarrow> ''passenger'' | Some t \<Rightarrow> t)\<rparr>
          in (case generate_tokens sm now ud of
                TokensOk access_token new_refresh expires_in token_type \<Rightarrow>
                  RefreshOk access_token expires_in
              | TokensFailed e \<Rightarrow> RefreshRaised (KeyError ''access_token'')))"

subsection \<open>Rate limiting\<close>

record request =
  remote_addr :: string
  user_agent :: string
  endpoint :: string

definition get_event_severity :: "string \<Rightarrow> string" where
  "get_event_severity ev =
     (if ev \<in> set [''ip_blocked'', ''multiple_failed_logins'', ''sql_injection_attempt'',
                     ''xss_attempt'', ''unauthorized_access_attempt'']
      then ''HIGH''
      else if ev \<in> set [''rate_limit_exceeded'', ''invalid_token_usage'',
                          ''suspicious_activity'']
      then ''MEDIUM''
      else ''LOW'')"

definition log_security_event ::
  "datetime \<Rightarrow> string \<Rightarrow> (string \<times> string) list \<Rightarrow> SecurityManager \<Rightarrow> SecurityManager" where
  "log_security_event now ev data sm =
     (let event = \<lparr>event_type = ev, se_timestamp = now, se_data = data,
                   severity = get_event_severity ev\<rparr>;
          events = security_events sm @ [event]
      in sm\<lparr>security_events :=
              (if 1000 < length events then py_last_n 1000 events else events)\<rparr>)"

datatype admission =
  Proceed
| Reject nat string "int option"

text \<open>
  The decorator \<^verbatim>\<open>rate_limit(max_requests, window_minutes)\<close> around a handler: the
  model returns \<open>Proceed\<close> where the source goes on to call the handler, and the status
  code, message and \<^verbatim>\<open>retry_after\<close> of the response otherwise. \<open>md5\<close> stands for
  \<^verbatim>\<open>hashlib.md5(...).hexdigest()\<close>; \<open>now\<close> is the clock read by \<^verbatim>\<open>time.time()\<close>.
\<close>

definition client_id_of :: "(string \<Rightarrow> string) \<Rightarrow> request \<Rightarrow> string" where
  \<comment> \<open>the key of a client's window: the digest of address and user agent\<close>
  "client_id_of md5 req = md5 (remote_addr req @ '':'' @ user_agent req)"

definition rate_limit ::
  "(string \<Rightarrow> string) \<Rightarrow> int \<Rightarrow> int \<Rightarrow> request \<Rightarrow> datetime \<Rightarrow> SecurityManager
     \<Rightarrow> admission \<times> SecurityManager" where
  "rate_limit md5 max_requests window_minutes req now sm =
     (let client_ip = remote_addr req;
          client_id = client_id_of md5 req
      in if client_ip \<in> blocked_ips sm
         then (Reject 429 ''IP address blocked due to suspicious activity'' None,
               log_security_event now ''blocked_ip_attempt''
                 [(''ip'', client_ip), (''endpoint'', endpoint req)] sm)
         else
           let window_start = now - of_int (window_minutes * 60);
               client_requests = dropWhile (\<lambda>t. t < window_start) (rate_limits sm client_id);
               sm1 = sm\<lparr>rate_limits := (rate_limits sm)(client_id := client_requests)\<rparr>
           in if max_requests \<le> int (length client_requests)
              then
                let sm2 = log_security_event now ''rate_limit_exceeded''
                            [(''client_id'', client_id), (''ip'', client_ip),
                             (''endpoint'', endpoint req)] sm1;
                    sm3 = sm2\<lparr>suspicious_activities :=
                                (suspicious_activities sm2)
                                  (client_ip := suspicious_activities sm2 client_ip + 1)\<rparr>;
                    sm4 = (if 5 \<le> suspicious_activities sm3 client_ip
                           then log_security_event now ''ip_blocked''
                                  [(''ip'', client_ip),
                                   (''reason'', ''Multiple rate limit violations'')]
                                  (sm3\<lparr>blocked_ips := insert client_ip (blocked_ips sm3)\<rparr>)
                           else sm3)
                in (Reject 429 ''Rate limit exceeded. Please try again later.''
                      (Some (window_minutes * 60)), sm4)
              else
                (Proceed,
                 sm1\<lparr>rate_limits := (rate_limits sm1)(client_id := client_requests @ [now])\<rparr>))"

text \<open>A run of requests through the decorator, in order, on one manager.\<close>

record call =
  c_request :: request
  c_now :: datetime
  c_max_requests :: int
  c_window_minutes :: int

fun handle_requests ::
  "(string \<Rightarrow> string) \<Rightarrow> call list \<Rightarrow> SecurityManager \<Rightarrow> admission list \<times> SecurityManager" where
  "handle_requests md5 [] sm = ([], sm)"
| "handle_requests md5 (c # cs) sm =
     (let (a, sm1) = rate_limit md5 (c_max_requests c) (c_window_minutes c)
                       (c_request c) (c_now c) sm;
          (as, sm2) = handle_requests md5 cs sm1
      in (a # as, sm2))"

definition rate_limit_rejection :: "admission \<Rightarrow> bool" where
  "rate_limit_rejection a =
     (case a of
        Reject code msg retry \<Rightarrow>
          code = 429 \<and> msg = ''Rate limit exceeded. Please try again later.''
      | Proceed \<Rightarrow> False)"

definition rejections :: "string \<Rightarrow> call list \<Rightarrow> admission list \<Rightarrow> nat" where
  \<comment> \<open>how many requests of a run came from \<open>ip\<close> and were answered by a rate-limit rejection\<close>
  "rejections ip cs as =
     length (filter (\<lambda>(c, a). remote_addr (c_request c) = ip \<and> rate_limit_rejection a)
                    (zip cs as))"

definition same_call :: "request \<Rightarrow> int \<Rightarrow> int \<Rightarrow> datetime \<Rightarrow> call" where
  \<comment> \<open>a request under the policy \<open>(N, W)\<close> arriving at time \<open>t\<close>\<close>
  "same_call req N W t = \<lparr>c_request = req, c_now = t, c_max_requests = N, c_window_minutes = W\<rparr>"

definition escalation_inv :: "SecurityManager \<Rightarrow> string \<Rightarrow> bool" where
  \<comment> \<open>an address is in the blocked set exactly when its counter stands at the threshold\<close>
  "escalation_inv sm ip =
     (suspicious_activities sm ip \<le> 5
      \<and> (ip \<in> blocked_ips sm \<longleftrightarrow> suspicious_activities sm ip = 5))"

definition within_radius ::
  "float_ops \<Rightarrow> Location \<Rightarrow> real \<Rightarrow> string \<times> Location list \<Rightarrow> bool" where
  \<comment> \<open>the driver has a latest location, its distance from the origin is computed and is
      at most the radius\<close>
  "within_radius ops origin radius_km p =
     (snd p \<noteq> []
      \<and> (case calculate_distance ops origin (last (snd p)) of
            Inl e \<Rightarrow> False | Inr d \<Rightarrow> d \<le> radius_km))"

definition reported_km :: "float_ops \<Rightarrow> Location \<Rightarrow> string \<times> Location list \<Rightarrow> real" where
  \<comment> \<open>the \<^verbatim>\<open>distance_km\<close> reported for a driver: the distance rounded to two decimals\<close>
  "reported_km ops origin p =
     (case calculate_distance ops origin (last (snd p)) of
        Inl e \<Rightarrow> 0 | Inr d \<Rightarrow> py_round ops d 2)"

definition distances_return :: "float_ops \<Rightarrow> Location \<Rightarrow> string \<times> Location list \<Rightarrow> bool" where
  \<comment> \<open>neither distance computation for the driver raises\<close>
  "distances_return ops origin p =
     (snd p = []
      \<or> (\<not> isl (calculate_distance ops origin (last (snd p)))
          \<and> \<not> isl (calculate_distance ops (last (snd p)) origin)))"

section \<open>Concrete inputs\<close>

definition origin0 :: Location where
  "origin0 = \<lparr>latitude = 0, longitude = 0, timestamp = 0, accuracy = 0, heading = 0, speed = 0\<rparr>"

definition east0 :: Location where
  \<comment> \<open>on the equator, 0.005 degrees east of \<open>origin0\<close>, one minute later\<close>
  "east0 = \<lparr>latitude = 0, longitude = 1 / 200, timestamp = 60, accuracy = 0, heading = 0,
            speed = 0\<rparr>"

definition near1 :: Location where
  "near1 = \<lparr>latitude = 0, longitude = 3 / 100000, timestamp = 0, accuracy = 0, heading = 0,
            speed = 0\<rparr>"

definition near2 :: Location where
  "near2 = \<lparr>latitude = 0, longitude = 1 / 100000, timestamp = 0, accuracy = 0, heading = 0,
            speed = 0\<rparr>"

definition bad_loc :: Location where
  "bad_loc = \<lparr>latitude = 91, longitude = 181, timestamp = 0, accuracy = 0, heading = 0,
              speed = 0\<rparr>"

definition south0 :: Location where
  \<comment> \<open>\<open>south0\<close> and \<open>north0\<close> are in range and antipodal\<close>
  "south0 = \<lparr>latitude = - 82, longitude = - 180, timestamp = 0, accuracy = 0, heading = 0,
             speed = 0\<rparr>"

definition north0 :: Location where
  "north0 = \<lparr>latitude = 82, longitude = 0, timestamp = 60, accuracy = 0, heading = 0,
             speed = 0\<rparr>"

definition two_drivers :: GPSTracker where
  "two_drivers = \<lparr>driver_locations = [(''d1'', [origin0]), (''d2'', [origin0])],
     passenger_locations = [], geofences = []\<rparr>"

definition tied_drivers :: GPSTracker where
  \<comment> \<open>two drivers about 3.3 m and 1.1 m from \<open>origin0\<close>, the farther one stored first\<close>
  "tied_drivers = \<lparr>driver_locations = [(''d1'', [near1]), (''d2'', [near2])],
     passenger_locations = [], geofences = []\<rparr>"

definition full_track :: GPSTracker where
  \<comment> \<open>one driver whose track holds 100 entries, the oldest being \<open>bad_loc\<close>\<close>
  "full_track = \<lparr>driver_locations = [(''d1'', bad_loc # replicate 99 origin0)],
     passenger_locations = [], geofences = []\<rparr>"

definition antipodal_driver :: GPSTracker where
  "antipodal_driver = \<lparr>driver_locations = [(''d1'', [south0])],
     passenger_locations = [], geofences = []\<rparr>"

definition zero_route :: Route where
  "zero_route = \<lparr>start_location = origin0, end_location = origin0,
     waypoints = [origin0, origin0], distance_km = 0, duration_minutes = 0,
     estimated_fare = 5\<rparr>"

definition north_route :: Route where
  \<comment> \<open>a route of recorded length 0 that ends at \<open>north0\<close>\<close>
  "north_route = \<lparr>start_location = south0, end_location = north0,
     waypoints = [south0, north0], distance_km = 0, duration_minutes = 0,
     estimated_fare = 5\<rparr>"

definition alice :: user_data where
  "alice = \<lparr>ud_id = Some 42, ud_email = Some ''alice@example.com'',
            ud_user_type = Some ''driver''\<rparr>"

definition sm0 :: SecurityManager where
  "sm0 = security_init ''secret''"

definition req0 :: request where
  "req0 = \<lparr>remote_addr = ''10.0.0.1'', user_agent = ''curl'', endpoint = ''register''\<rparr>"

section \<open>Distances in the two arithmetics\<close>

subsection \<open>Exact arithmetic\<close>

text \<open>
  Without rounding error, two points on the equator are their difference of longitude
  apart, in radians, times the radius; the square roots never fail there.
\<close>

lemma exact_ops_simps:
  "fl_rnd exact_ops x = x" "fl_sin exact_ops = sin" "fl_cos exact_ops = cos"
  "fl_pow2 exact_ops x = x * x" "fl_sqrt exact_ops = sqrt" "fl_atan2 exact_ops = atan2"
  by (simp_all add: exact_ops_def)

lemma atan2_sin_cos:
  assumes "0 < x" "x < pi / 2"
  shows "atan2 (sqrt (sin x * sin x)) (sqrt (1 - sin x * sin x)) = x"
proof -
  have s: "0 < sin x" using assms by (intro sin_gt_zero) (use pi_gt_zero in linarith)+
  have c: "0 < cos x" using assms by (intro cos_gt_zero_pi) linarith+
  have "1 - sin x * sin x = cos x * cos x"
    using sin_cos_squared_add[of x] by (simp add: power2_eq_square algebra_simps)
  then have "atan2 (sqrt (sin x * sin x)) (sqrt (1 - sin x * sin x)) = atan2 (sin x) (cos x)"
    using s c by simp
  also have "\<dots> = arctan (tan x)" using c by (simp add: atan2_def tan_def)
  also have "\<dots> = x" using assms by (intro arctan_tan) linarith+
  finally show ?thesis .
qed

lemma deg_to_rad_bounds: "0 < deg_to_rad" "deg_to_rad < 1 / 50"
  by (simp_all add: deg_to_rad_def)

lemma exact_distance_equator:
  assumes "latitude a = 0" and "latitude b = 0"
    and "delta = \<bar>longitude b - longitude a\<bar> * deg_to_rad"
    and "0 < delta" and "delta < 2"
  shows "calculate_distance exact_ops a b = Inr (6371 * delta)"
proof -
  let ?h = "(longitude b - longitude a) * deg_to_rad / 2"
  have abs: "\<bar>?h\<bar> = delta / 2"
    using assms(3) deg_to_rad_bounds(1) by (simp add: abs_mult)
  have sq: "sin ?h * sin ?h = sin (delta / 2) * sin (delta / 2)"
  proof (cases "0 \<le> ?h")
    case True
    then show ?thesis using abs by simp
  next
    case False
    then have "?h = - (delta / 2)" using abs by linarith
    then show ?thesis by simp
  qed
  have a: "haversine_a exact_ops a b = sin (delta / 2) * sin (delta / 2)"
    using assms(1,2) sq by (simp add: haversine_a_def radians_def exact_ops_simps Let_def)
  have r: "0 < delta / 2" "delta / 2 < pi / 2"
    using assms(4,5) pi_ge_two by simp_all
  have "1 - sin (delta / 2) * sin (delta / 2) = cos (delta / 2) * cos (delta / 2)"
    using sin_cos_squared_add[of "delta / 2"] by (simp add: power2_eq_square algebra_simps)
  then have nn: "\<not> sin (delta / 2) * sin (delta / 2) < 0"
    "\<not> 1 - sin (delta / 2) * sin (delta / 2) < 0"
    by (simp_all add: not_less)
  show ?thesis
    unfolding calculate_distance_def Let_def a py_sqrt_def exact_ops_simps
    using nn atan2_sin_cos[OF r] by simp
qed

lemma exact_distance_self: "calculate_distance exact_ops a a = Inr 0"
  by (simp add: calculate_distance_def haversine_a_def radians_def exact_ops_simps py_sqrt_def
      atan2_def Let_def)

lemma exact_distance_origin0_east0:
  "calculate_distance exact_ops origin0 east0 = Inr (6371 * (deg_to_rad / 200))"
  using exact_distance_equator[of origin0 east0 "deg_to_rad / 200"]
  by (simp add: origin0_def east0_def deg_to_rad_def)

lemma near_distances:
  "calculate_distance exact_ops origin0 near1 = Inr (6371 * (3 / 100000 * deg_to_rad))"
  "calculate_distance exact_ops near1 origin0 = Inr (6371 * (3 / 100000 * deg_to_rad))"
  "calculate_distance exact_ops origin0 near2 = Inr (6371 * (1 / 100000 * deg_to_rad))"
  "calculate_distance exact_ops near2 origin0 = Inr (6371 * (1 / 100000 * deg_to_rad))"
  using exact_distance_equator[of origin0 near1 "3 / 100000 * deg_to_rad"]
    exact_distance_equator[of near1 origin0 "3 / 100000 * deg_to_rad"]
    exact_distance_equator[of origin0 near2 "1 / 100000 * deg_to_rad"]
    exact_distance_equator[of near2 origin0 "1 / 100000 * deg_to_rad"]
  by (simp_all add: origin0_def near1_def near2_def deg_to_rad_def)

subsection \<open>Binary64 arithmetic at an antipodal pair\<close>

text \<open>
  From \<open>south0\<close> to \<open>north0\<close> the doubles give \<open>a = 1 + 2 ^ -52\<close>: the two terms of the
  sum are the rounded squares of the sine and the cosine of 82 degrees, and their sum
  rounds up. Then \<open>1 - a\<close> is negative and \<^verbatim>\<open>math.sqrt(1 - a)\<close> raises.
\<close>

lemma pow2_powr: "pow2 e = 2 powr of_int e"
  by (simp add: pow2_def powr_int)

lemma ieee_round_eval:
  assumes "pow2 e \<le> \<bar>x\<bar>" and "\<bar>x\<bar> < pow2 (e + 1)"
    and "of_int (round_half_even (x / pow2 (e - 52))) * pow2 (e - 52) = y"
  shows "ieee_round x = y"
proof -
  have "0 < pow2 e" by (simp add: pow2_def)
  then have pos: "0 < \<bar>x\<bar>" using assms(1) by linarith
  then have nz: "x \<noteq> 0" by auto
  have "\<lfloor>log 2 \<bar>x\<bar>\<rfloor> = e"
    using assms(1,2) pos by (simp add: floor_log_eq_powr_iff pow2_powr)
  then show ?thesis using nz assms(3) by (simp add: ieee_round_def Let_def)
qed

lemmas ev = pow2_def round_half_even_def Let_def deg_to_rad_def

lemma double_radians:
  "radians double_ops (- 82) = - (6445416618514801 / 4503599627370496)"
  "radians double_ops 82 = 6445416618514801 / 4503599627370496"
  "radians double_ops 164 = 6445416618514801 / 2251799813685248"
  "radians double_ops 180 = 884279719003555 / 281474976710656"
  unfolding radians_def double_ops_def float_ops.simps
     apply (rule ieee_round_eval[where e = 0]; simp add: ev)
    apply (rule ieee_round_eval[where e = 0]; simp add: ev)
   apply (rule ieee_round_eval[where e = 1]; simp add: ev)
  apply (rule ieee_round_eval[where e = 1]; simp add: ev)
  done

lemma double_exact:
  "ieee_round 164 = 164" "ieee_round 180 = 180" "ieee_round 1 = 1"
  "ieee_round (6445416618514801 / 4503599627370496) = 6445416618514801 / 4503599627370496"
  "ieee_round (884279719003555 / 562949953421312) = 884279719003555 / 562949953421312"
  "ieee_round (2791388987794435 / 144115188075855872) = 2791388987794435 / 144115188075855872"
       apply (rule ieee_round_eval[where e = 7]; simp add: ev)
      apply (rule ieee_round_eval[where e = 7]; simp add: ev)
     apply (rule ieee_round_eval[where e = 0]; simp add: ev)
    apply (rule ieee_round_eval[where e = 0]; simp add: ev)
   apply (rule ieee_round_eval[where e = 0]; simp add: ev)
  apply (rule ieee_round_eval[where e = "- 6"]; simp add: ev)
  done

lemma double_rounded:
  "ieee_round (19889556528486762294526464184969 / 20282409603651670423947251286016)
     = 8832737443003841 / 9007199254740992"
  "ieee_round (6285649202638562152591570110121 / 324518553658426726783156020576256)
     = 2791388987794435 / 144115188075855872"
  "ieee_round (144115188075855891 / 144115188075855872)
     = 4503599627370497 / 4503599627370496"
    apply (rule ieee_round_eval[where e = "- 1"]; simp add: ev)
   apply (rule ieee_round_eval[where e = "- 6"]; simp add: ev)
  apply (rule ieee_round_eval[where e = 0]; simp add: ev)
  done

lemma ieee_round_neg: "ieee_round (1 - 4503599627370497 / 4503599627370496) < 0"
proof -
  have "ieee_round (1 - 4503599627370497 / 4503599627370496) = - (1 / 4503599627370496)"
    by (rule ieee_round_eval[where e = "- 52"]; simp add: ev)
  then show ?thesis by simp
qed

lemma haversine_a_south_north:
  "haversine_a double_ops south0 north0 = 4503599627370497 / 4503599627370496"
proof -
  have fl: "fl_rnd double_ops = ieee_round" "fl_pow2 double_ops = (\<lambda>x. ieee_round (x * x))"
    by (simp_all add: double_ops_def)
  have sn: "fl_sin double_ops (6445416618514801 / 4503599627370496)
              = 4459770905381437 / 4503599627370496"
     "fl_sin double_ops (884279719003555 / 562949953421312) = 1"
    by (simp_all add: double_ops_def)
  have cs: "fl_cos double_ops (- (6445416618514801 / 4503599627370496))
              = 2507119702494989 / 18014398509481984"
     "fl_cos double_ops (6445416618514801 / 4503599627370496)
              = 2507119702494989 / 18014398509481984"
    by (simp_all add: double_ops_def)
  have lat: "radians double_ops (latitude south0) = - (6445416618514801 / 4503599627370496)"
    "radians double_ops (latitude north0) = 6445416618514801 / 4503599627370496"
    by (simp_all add: south0_def north0_def double_radians)
  have dlat: "fl_rnd double_ops
        (radians double_ops (fl_rnd double_ops (latitude north0 - latitude south0)) / 2)
      = 6445416618514801 / 4503599627370496"
    by (simp add: south0_def north0_def fl double_exact double_radians)
  have dlon: "fl_rnd double_ops
        (radians double_ops (fl_rnd double_ops (longitude north0 - longitude south0)) / 2)
      = 884279719003555 / 562949953421312"
    by (simp add: south0_def north0_def fl double_exact double_radians)
  show ?thesis
    unfolding haversine_a_def Let_def dlat dlon lat sn cs
    by (simp add: fl double_exact double_rounded)
qed

lemma calculate_distance_south_north:
  "calculate_distance double_ops south0 north0 = Inl (ValueError ''math domain error'')"
proof -
  have fl: "fl_rnd double_ops = ieee_round" by (simp add: double_ops_def)
  show ?thesis
    unfolding calculate_distance_def Let_def haversine_a_south_north fl
    using ieee_round_neg by (simp add: py_sqrt_def)
qed

section \<open>Estimated time of arrival\<close>

text \<open>
  Claim C6, as amended. \<open>calculate_eta\<close> truncates: for every pair of locations for
  which \<open>calculate_distance\<close> returns a distance, it returns the product
  \<open>distance / 25 * 60\<close>, taken in double arithmetic and cut to its integer part (rounded
  toward zero, which is down for a product that is not negative), plus 2 minutes, and at
  least 3 minutes. It does not round up.
\<close>

theorem calculate_eta_truncates:
  assumes "calculate_distance ops driver_location destination = Inr d"
    and "x = fl_rnd ops (fl_rnd ops (d / 25) * 60)"
  shows "calculate_eta ops driver_location destination
           = Inr (max ((if 0 \<le> x then \<lfloor>x\<rfloor> else \<lceil>x\<rceil>) + 2) 3)"
  using assms by (simp add: calculate_eta_def py_int_def Let_def)

lemma calculate_eta_raises:
  "calculate_distance ops driver_location destination = Inl e
   \<Longrightarrow> calculate_eta ops driver_location destination = Inl e"
  by (simp add: calculate_eta_def)

theorem calculate_eta_truncates_witness:
  "calculate_eta exact_ops origin0 east0 = Inr 3"
proof -
  have x: "6371 * (deg_to_rad / 200) / 25 * 60
             = fl_rnd exact_ops (fl_rnd exact_ops (6371 * (deg_to_rad / 200) / 25) * 60)"
    by (simp add: exact_ops_simps)
  have "\<lfloor>6371 * (deg_to_rad / 200) / 25 * 60\<rfloor> = 1"
    by (simp add: deg_to_rad_def)
  then show ?thesis
    using calculate_eta_truncates[OF exact_distance_origin0_east0 x]
    by (simp add: deg_to_rad_def)
qed

text \<open>
  The claim as stated, with the ceiling, fails for two points 0.005 degrees apart on the
  equator: they are about 0.556 km apart, which is 1.33 minutes at 25 km/h; the code
  answers 3 minutes where the ceiling formula gives 4. The values are those of exact
  arithmetic; the doubles of this computation agree with them to 15 digits, far from the
  integers 1 and 2 that decide the result.
\<close>

theorem calculate_eta_not_ceiling:
  "calculate_distance exact_ops origin0 east0 = Inr (6371 * (deg_to_rad / 200))
   \<and> calculate_eta exact_ops origin0 east0 = Inr 3
   \<and> max (\<lceil>6371 * (deg_to_rad / 200) / 25 * 60\<rceil> + 2) 3 = 4"
  by (simp add: calculate_eta_def exact_distance_origin0_east0 exact_ops_simps py_int_def
      deg_to_rad_def Let_def)

section \<open>Fallback route\<close>

text \<open>
  Whenever the call to the routing provider raises, answers with a status other than OK,
  or answers OK with a document the code cannot read, \<open>calculate_route\<close> is the
  straight-line calculation; that returns the fallback route of the specification when
  its distance computation returns, and raises when it raises.
\<close>

lemma calculate_route_is_fallback:
  "outcome = ProviderRaises
     \<or> (\<exists>status leg_opt. outcome = ProviderJson status leg_opt
            \<and> (status \<noteq> ''OK'' \<or> leg_opt = None))
   \<Longrightarrow> calculate_route ops outcome current_hour now start_loc end_loc
       = fallback_route ops current_hour start_loc end_loc"
  by (auto simp: calculate_route_def split: sum.splits)

lemma fallback_route_returns:
  "calculate_distance ops start_loc end_loc = Inr d
   \<Longrightarrow> fallback_route ops current_hour start_loc end_loc
       = Inr \<lparr>start_location = start_loc, end_location = end_loc,
              waypoints = [start_loc, end_loc],
              distance_km = d,
              duration_minutes = fl_rnd ops (d * 2),
              estimated_fare = calculate_fare ops current_hour d (fl_rnd ops (d * 2))\<rparr>"
  by (simp add: fallback_route_def Let_def)

lemma fallback_route_raises:
  "calculate_distance ops start_loc end_loc = Inl e
   \<Longrightarrow> fallback_route ops current_hour start_loc end_loc = Inl e"
  by (simp add: fallback_route_def)

text \<open>
  Claim C7 does not hold of the code. With the provider unreachable, or answering without
  a route, and start and end at the antipodal pair \<open>south0\<close>, \<open>north0\<close>, the straight-line
  calculation raises \<^verbatim>\<open>ValueError\<close> (math domain error), in the \<^verbatim>\<open>else\<close> branch and
  again in the \<^verbatim>\<open>except\<close> handler, so \<open>calculate_route\<close> returns no route.
\<close>

theorem calculate_route_fallback_raises:
  "calculate_route double_ops ProviderRaises 12 0 south0 north0
     = Inl (ValueError ''math domain error'')
   \<and> calculate_route double_ops (ProviderJson ''ZERO_RESULTS'' None) 12 0 south0 north0
     = Inl (ValueError ''math domain error'')"
  by (simp add: calculate_route_def fallback_route_def calculate_distance_south_north)

section \<open>Driver tracks\<close>

lemma track_update:
  "track (st\<lparr>driver_locations := AList.update k v (driver_locations st)\<rparr>) d
     = (if d = k then v else track st d)"
  by (simp add: track_def update_conv')

lemma upd_last_snoc: "(ys @ [x])[length (ys @ [x]) - 1 := v] = ys @ [v]"
  by simp

lemma capped_snoc:
  "(if 100 < length (xs @ [x]) then py_last_n 100 (xs @ [x]) else xs @ [x])
     = drop (length xs + 1 - 100) xs @ [x]"
  by (simp add: py_last_n_def)

lemma previous_entry:
  "xs \<noteq> [] \<Longrightarrow>
     (drop (length xs + 1 - 100) xs @ [x]) ! (length (drop (length xs + 1 - 100) xs @ [x]) - 2)
       = last xs"
proof -
  assume ne: "xs \<noteq> []"
  let ?k = "drop (length xs + 1 - 100) xs"
  have k: "?k \<noteq> []" using ne by (cases xs) auto
  have i: "length (?k @ [x]) - 2 = length ?k - 1" by simp
  have "length ?k - 1 < length ?k" using k by (cases ?k) simp_all
  then have "(?k @ [x]) ! (length (?k @ [x]) - 2) = ?k ! (length ?k - 1)"
    unfolding i by (simp only: nth_append if_True)
  also have "\<dots> = last ?k" using k by (simp add: last_conv_nth)
  also have "\<dots> = last xs" using k by simp
  finally show ?thesis .
qed

lemma calculate_distance_speed [simp]:
  "calculate_distance ops (l\<lparr>speed := s\<rparr>) c = calculate_distance ops l c"
  by (simp add: calculate_distance_def haversine_a_def)

lemma geofence_events_return:
  "list_all (\<lambda>g. \<not> isl (calculate_distance ops location (center (snd g)))) gs
   \<Longrightarrow> \<not> isl (geofence_events ops now driver_id location gs)"
proof (induction gs)
  case Nil
  show ?case by simp
next
  case (Cons g gs)
  obtain gid gf where g: "g = (gid, gf)" by (cases g)
  show ?case using Cons unfolding g
    by (auto split: sum.splits)
qed

text \<open>What a call leaves in the updated driver's track, and what it answers.\<close>

lemma update_driver_location_cases:
  fixes ops now driver_id location st
  defines "old \<equiv> track st driver_id"
  defines "kept \<equiv> drop (length old + 1 - 100) old"
  defines "r \<equiv> update_driver_location ops now driver_id location st"
  obtains (speed_raises) e where
      "old \<noteq> []" "calculate_speed ops (last old) location = Inl e"
      "snd r = UpdateFailed (py_str e)"
      "\<And>d. track (fst r) d = (if d = driver_id then kept @ [location] else track st d)"
    | (geofences_raise) loc' e where
      "loc' = location\<lparr>speed := speed loc'\<rparr>"
      "old = [] \<or> \<not> isl (calculate_speed ops (last old) location)"
      "check_geofences ops now st driver_id loc' = Inl e"
      "snd r = UpdateFailed (py_str e)"
      "\<And>d. track (fst r) d = (if d = driver_id then kept @ [loc'] else track st d)"
    | (ok) loc' events where
      "loc' = location\<lparr>speed := speed loc'\<rparr>"
      "check_geofences ops now st driver_id loc' = Inr events"
      "snd r = UpdateOk driver_id loc' events"
      "\<And>d. track (fst r) d = (if d = driver_id then kept @ [loc'] else track st d)"
proof -
  define sp where "sp = (if 1 < length (kept @ [location])
       then (case calculate_speed ops ((kept @ [location]) ! (length (kept @ [location]) - 2))
                    location of
               Inl e \<Rightarrow> Inl e | Inr s \<Rightarrow> Inr (location\<lparr>speed := s\<rparr>))
       else Inr location)"
  have r: "r = (case sp of
       Inl e \<Rightarrow> (st\<lparr>driver_locations :=
                     AList.update driver_id (kept @ [location]) (driver_locations st)\<rparr>,
                 UpdateFailed (py_str e))
     | Inr loc' \<Rightarrow>
        (case check_geofences ops now st driver_id loc' of
           Inl e \<Rightarrow> (st\<lparr>driver_locations :=
                     AList.update driver_id (kept @ [loc']) (driver_locations st)\<rparr>,
                     UpdateFailed (py_str e))
         | Inr events \<Rightarrow> (st\<lparr>driver_locations :=
                     AList.update driver_id (kept @ [loc']) (driver_locations st)\<rparr>,
                     UpdateOk driver_id loc' events)))"
    unfolding r_def update_driver_location_def Let_def old_def[symmetric] capped_snoc
      kept_def[symmetric] sp_def[symmetric] upd_last_snoc
    by (rule refl)
  have len: "1 < length (kept @ [location]) \<longleftrightarrow> old \<noteq> []"
    unfolding kept_def by (cases old) auto
  have prev: "old \<noteq> [] \<Longrightarrow> (kept @ [location]) ! (length (kept @ [location]) - 2) = last old"
    unfolding kept_def by (rule previous_entry)
  show thesis
  proof (cases sp)
    case (Inl e)
    then have ne: "old \<noteq> []" using len by (auto simp: sp_def split: if_splits)
    with Inl prev have "calculate_speed ops (last old) location = Inl e"
      using len by (auto simp: sp_def split: sum.splits)
    then show thesis
      using ne Inl r by (intro speed_raises[of e]) (simp_all add: track_update)
  next
    case (Inr loc')
    have sp': "loc' = location\<lparr>speed := speed loc'\<rparr>"
      using Inr by (auto simp: sp_def split: if_splits sum.splits)
    have ret: "old = [] \<or> \<not> isl (calculate_speed ops (last old) location)"
      using Inr len prev by (auto simp: sp_def split: if_splits sum.splits)
    show thesis
    proof (cases "check_geofences ops now st driver_id loc'")
      case (Inl e)
      then show thesis
        using Inr r sp' ret by (intro geofences_raise[of loc' e]) (simp_all add: track_update)
    next
      case ev: (Inr events)
      then show thesis
        using Inr r sp' by (intro ok[of loc' events]) (simp_all add: track_update)
    qed
  qed
qed

text \<open>
  Claim C1, as amended. \<open>update_driver_location\<close> checks no range: for every driver id
  and every location, whatever its latitude and longitude, the location becomes the last
  entry of the driver's track with the latitude and longitude given, neither rejected for
  its range nor clamped; and the call answers success whenever the distance computations
  it makes, to the driver's previous location and to the centre of every geofence,
  return.
\<close>

theorem update_driver_location_stores_unvalidated:
  "(let r = update_driver_location ops now driver_id location st; st' = fst r
    in track st' driver_id \<noteq> []
       \<and> latitude (last (track st' driver_id)) = latitude location
       \<and> longitude (last (track st' driver_id)) = longitude location
       \<and> ((track st driver_id = []
             \<or> \<not> isl (calculate_distance ops (last (track st driver_id)) location))
            \<and> list_all (\<lambda>g. \<not> isl (calculate_distance ops location (center (snd g))))
                  (geofences st)
           \<longrightarrow> (\<exists>events. snd r = UpdateOk driver_id (last (track st' driver_id)) events)))"
proof -
  define r where "r = update_driver_location ops now driver_id location st"
  have stored: "track (fst r) driver_id \<noteq> []
       \<and> latitude (last (track (fst r) driver_id)) = latitude location
       \<and> longitude (last (track (fst r) driver_id)) = longitude location"
  proof (cases rule: update_driver_location_cases[of st driver_id ops location now])
    case (speed_raises e)
    then show ?thesis unfolding r_def by simp
  next
    case (geofences_raise loc' e)
    have "latitude loc' = latitude location" "longitude loc' = longitude location"
      by (subst geofences_raise(1), simp)+
    with geofences_raise(5) show ?thesis unfolding r_def by simp
  next
    case (ok loc' events)
    have "latitude loc' = latitude location" "longitude loc' = longitude location"
      by (subst ok(1), simp)+
    with ok(4) show ?thesis unfolding r_def by simp
  qed
  have answer: "\<exists>events. snd r = UpdateOk driver_id (last (track (fst r) driver_id)) events"
    if sp: "track st driver_id = []
             \<or> \<not> isl (calculate_distance ops (last (track st driver_id)) location)"
      and gf: "list_all (\<lambda>g. \<not> isl (calculate_distance ops location (center (snd g))))
                  (geofences st)"
  proof (cases rule: update_driver_location_cases[of st driver_id ops location now])
    case (speed_raises e)
    then have False using sp by (auto simp: calculate_speed_def Let_def split: sum.splits)
    then show ?thesis ..
  next
    case (geofences_raise loc' e)
    have "calculate_distance ops loc' c = calculate_distance ops location c" for c
      by (subst geofences_raise(1)) simp
    then have "\<not> isl (geofence_events ops now driver_id loc' (geofences st))"
      using gf by (intro geofence_events_return) simp
    then have False using geofences_raise(3) by (simp add: check_geofences_def)
    then show ?thesis ..
  next
    case (ok loc' events)
    then show ?thesis unfolding r_def by simp
  qed
  show ?thesis
    unfolding Let_def r_def[symmetric] using stored answer by blast
qed

theorem update_driver_location_stores_unvalidated_witness:
  "(case snd (update_driver_location exact_ops 60 ''d1'' east0 two_drivers) of
      UpdateOk driver_id loc events \<Rightarrow> latitude loc = 0 \<and> longitude loc = 1 / 200
    | UpdateFailed msg \<Rightarrow> False)"
proof -
  have tr: "track two_drivers ''d1'' = [origin0]"
    by (simp add: track_def two_drivers_def)
  have h: "(track two_drivers ''d1'' = []
             \<or> \<not> isl (calculate_distance exact_ops (last (track two_drivers ''d1'')) east0))
            \<and> list_all (\<lambda>g. \<not> isl (calculate_distance exact_ops east0 (center (snd g))))
                  (geofences two_drivers)"
    by (simp add: tr exact_distance_origin0_east0) (simp add: two_drivers_def)
  note w = update_driver_location_stores_unvalidated[of exact_ops 60 "''d1''" east0 two_drivers]
  from w h obtain events where
    "snd (update_driver_location exact_ops 60 ''d1'' east0 two_drivers)
       = UpdateOk ''d1''
           (last (track (fst (update_driver_location exact_ops 60 ''d1'' east0 two_drivers))
                    ''d1'')) events"
    unfolding Let_def by blast
  moreover from w have
    "latitude (last (track (fst (update_driver_location exact_ops 60 ''d1'' east0 two_drivers))
                    ''d1'')) = latitude east0"
    "longitude (last (track (fst (update_driver_location exact_ops 60 ''d1'' east0 two_drivers))
                    ''d1'')) = longitude east0"
    unfolding Let_def by blast+
  ultimately show ?thesis by (simp add: east0_def)
qed

text \<open>
  The claim as stated fails at latitude 91, longitude 181: the call on a fresh tracker
  answers success and the track, empty before, holds the location afterwards.
\<close>

theorem update_driver_location_accepts_out_of_range:
  "90 < latitude bad_loc \<and> 180 < longitude bad_loc
   \<and> snd (update_driver_location double_ops 0 ''d1'' bad_loc gps_init)
       = UpdateOk ''d1'' bad_loc []
   \<and> track gps_init ''d1'' = []
   \<and> track (fst (update_driver_location double_ops 0 ''d1'' bad_loc gps_init)) ''d1''
       = [bad_loc]"
  by (simp add: update_driver_location_def track_def gps_init_def bad_loc_def
        check_geofences_def Let_def)

text \<open>
  Claim C9. After \<open>update_driver_location\<close> the updated driver's track has at most 100
  entries and every other track is untouched, so tracks that were within the cap all
  stay within it; the new track is the old one with the new location (its speed
  annotated) appended, cut down from the front to the 100 most recent entries, in order.
\<close>

theorem driver_track_capped:
  "(let st' = fst (update_driver_location ops now driver_id location st)
    in length (track st' driver_id) \<le> 100
       \<and> (\<forall>d. d \<noteq> driver_id \<longrightarrow> track st' d = track st d)
       \<and> ((\<forall>d. length (track st d) \<le> 100) \<longrightarrow> (\<forall>d. length (track st' d) \<le> 100))
       \<and> (\<exists>loc'. loc' = location\<lparr>speed := speed loc'\<rparr>
             \<and> track st' driver_id
                 = drop (length (track st driver_id) + 1 - 100) (track st driver_id @ [loc'])))"
proof -
  define st' where "st' = fst (update_driver_location ops now driver_id location st)"
  define old where "old = track st driver_id"
  have "\<exists>loc'. loc' = location\<lparr>speed := speed loc'\<rparr>
          \<and> (\<forall>d. track st' d
                 = (if d = driver_id then drop (length old + 1 - 100) old @ [loc']
                    else track st d))"
  proof (cases rule: update_driver_location_cases[of st driver_id ops location now])
    case (speed_raises e)
    have "location = location\<lparr>speed := speed location\<rparr>" by simp
    with speed_raises(4) show ?thesis unfolding st'_def old_def by blast
  next
    case (geofences_raise loc' e)
    from geofences_raise(1,5) show ?thesis unfolding st'_def old_def by blast
  next
    case (ok loc' events)
    from ok(1,4) show ?thesis unfolding st'_def old_def by blast
  qed
  then obtain loc' where sp: "loc' = location\<lparr>speed := speed loc'\<rparr>"
    and tr: "\<And>d. track st' d
                 = (if d = driver_id then drop (length old + 1 - 100) old @ [loc']
                    else track st d)"
    by blast
  have len: "length (drop (length old + 1 - 100) old @ [loc']) \<le> 100" by simp
  have dr: "drop (length old + 1 - 100) old @ [loc'] = drop (length old + 1 - 100) (old @ [loc'])"
    by simp
  have "length (track st' driver_id) \<le> 100"
    using tr len by simp
  moreover have "\<forall>d. d \<noteq> driver_id \<longrightarrow> track st' d = track st d"
    using tr by simp
  moreover have "(\<forall>d. length (track st d) \<le> 100) \<longrightarrow> (\<forall>d. length (track st' d) \<le> 100)"
    using tr len by simp
  moreover have "\<exists>l. l = location\<lparr>speed := speed l\<rparr>
       \<and> track st' driver_id = drop (length old + 1 - 100) (old @ [l])"
    using sp dr tr by (intro exI[of _ loc']) simp
  ultimately show ?thesis
    unfolding Let_def st'_def old_def by blast
qed

theorem driver_track_capped_witness:
  "length (track full_track ''d1'') = 100
   \<and> hd (track full_track ''d1'') = bad_loc
   \<and> length (track (fst (update_driver_location exact_ops 60 ''d1'' east0 full_track)) ''d1'')
       = 100
   \<and> hd (track (fst (update_driver_location exact_ops 60 ''d1'' east0 full_track)) ''d1'')
       = origin0
   \<and> track (fst (update_driver_location exact_ops 60 ''d1'' east0 full_track)) ''d2''
       = track full_track ''d2''"
proof -
  have old: "track full_track ''d1'' = bad_loc # replicate 99 origin0"
    by (simp add: track_def full_track_def)
  have r: "replicate 99 origin0 = origin0 # replicate 98 origin0"
    by (simp add: replicate_Suc[symmetric] del: replicate_Suc)
  from driver_track_capped[of exact_ops 60 "''d1''" east0 full_track]
  obtain loc' where
    new: "track (fst (update_driver_location exact_ops 60 ''d1'' east0 full_track)) ''d1''
            = replicate 99 origin0 @ [loc']"
    and other: "track (fst (update_driver_location exact_ops 60 ''d1'' east0 full_track)) ''d2''
            = track full_track ''d2''"
    unfolding Let_def old by auto
  show ?thesis unfolding new other old by (simp add: r)
qed

section \<open>Nearby drivers\<close>

lemma collect_nearby_returns:
  "list_all (distances_return ops origin) dl \<Longrightarrow> \<not> isl (collect_nearby ops origin r dl)"
proof (induction dl)
  case Nil
  show ?case by simp
next
  case (Cons p dl)
  obtain d locs where p: "p = (d, locs)" by (cases p)
  show ?case using Cons unfolding p
    by (auto simp: distances_return_def calculate_eta_def Let_def split: sum.splits)
qed

lemma collect_nearby_entries:
  "collect_nearby ops origin r dl = Inr found
   \<Longrightarrow> map (\<lambda>e. (nd_driver_id e, nd_distance_km e)) found
       = map (\<lambda>p. (fst p, reported_km ops origin p)) (filter (within_radius ops origin r) dl)"
proof (induction dl arbitrary: found)
  case Nil
  then show ?case by simp
next
  case (Cons p dl)
  obtain d locs where p: "p = (d, locs)" by (cases p)
  show ?case
  proof (cases "within_radius ops origin r p")
    case True
    then obtain x where x: "locs \<noteq> []" "calculate_distance ops origin (last locs) = Inr x"
      "x \<le> r"
      unfolding p by (auto simp: within_radius_def split: sum.splits)
    from Cons.prems x obtain eta rest where
      rest: "collect_nearby ops origin r dl = Inr rest"
      and found: "found = nearby_entry ops d (last locs) x eta # rest"
      unfolding p by (auto split: sum.splits)
    show ?thesis
      using Cons.IH[OF rest] True x unfolding found p
      by (simp add: nearby_entry_def reported_km_def)
  next
    case False
    have "collect_nearby ops origin r dl = Inr found"
      using Cons.prems False unfolding p
      by (auto simp: within_radius_def split: sum.splits if_splits)
    from Cons.IH[OF this] False show ?thesis by simp
  qed
qed

lemma filter_fst_of_pairs:
  assumes "map g xs = map h ys"
  shows "map (\<lambda>x. fst (g x)) (filter (\<lambda>x. snd (g x) = k) xs)
       = map (\<lambda>y. fst (h y)) (filter (\<lambda>y. snd (h y) = k) ys)"
proof -
  have "map fst (filter (\<lambda>q. snd q = k) (map g xs)) = map fst (filter (\<lambda>q. snd q = k) (map h ys))"
    using assms by simp
  then show ?thesis by (simp add: filter_map comp_def)
qed

text \<open>
  Claim C8, as amended. For every origin, radius and store for which the distance
  computations return, \<open>find_nearby_drivers\<close> returns one entry per driver whose track is
  not empty and whose latest location is within the radius of the origin, sorted
  ascending by the distance it reports, which is the distance rounded to two decimals;
  drivers that report the same distance stay in the order of the store, and drivers with
  an empty track are left out without an error. The function has no bound on the number
  of results and returns all of them.
\<close>

theorem find_nearby_drivers_sorted_within_radius:
  "(list_all (distances_return ops origin) (driver_locations st)
      \<longrightarrow> \<not> isl (find_nearby_drivers ops st origin radius_km))
   \<and> (\<forall>result. find_nearby_drivers ops st origin radius_km = Inr result \<longrightarrow>
         sorted (map nd_distance_km result)
       \<and> mset (map nd_driver_id result)
           = mset (map fst (filter (within_radius ops origin radius_km) (driver_locations st)))
       \<and> (\<forall>k. map nd_driver_id (filter (\<lambda>e. nd_distance_km e = k) result)
              = map fst (filter (\<lambda>p. within_radius ops origin radius_km p
                                        \<and> reported_km ops origin p = k)
                           (driver_locations st)))
       \<and> (distinct (map fst (driver_locations st)) \<longrightarrow> distinct (map nd_driver_id result)))"
proof -
  let ?dl = "driver_locations st"
  let ?kept = "filter (within_radius ops origin radius_km) ?dl"
  have ret: "\<not> isl (find_nearby_drivers ops st origin radius_km)"
    if "list_all (distances_return ops origin) ?dl"
    using collect_nearby_returns[OF that, of radius_km]
    by (auto simp: find_nearby_drivers_def split: sum.splits)
  have props: "sorted (map nd_distance_km result)
       \<and> mset (map nd_driver_id result) = mset (map fst ?kept)
       \<and> (\<forall>k. map nd_driver_id (filter (\<lambda>e. nd_distance_km e = k) result)
              = map fst (filter (\<lambda>p. within_radius ops origin radius_km p
                                        \<and> reported_km ops origin p = k) ?dl))
       \<and> (distinct (map fst ?dl) \<longrightarrow> distinct (map nd_driver_id result))"
    if res: "find_nearby_drivers ops st origin radius_km = Inr result" for result
  proof -
    from res obtain found where
      found: "collect_nearby ops origin radius_km ?dl = Inr found"
      and result: "result = sort_key nd_distance_km found"
      by (auto simp: find_nearby_drivers_def split: sum.splits)
    note pairs = collect_nearby_entries[OF found]
    have ids: "map nd_driver_id found = map fst ?kept"
    proof -
      have "map fst (map (\<lambda>e. (nd_driver_id e, nd_distance_km e)) found)
          = map fst (map (\<lambda>p. (fst p, reported_km ops origin p)) ?kept)"
        by (simp only: pairs)
      then show ?thesis by (simp add: comp_def)
    qed
    have s: "sorted (map nd_distance_km result)"
      unfolding result by (rule sorted_sort_key)
    have m: "mset (map nd_driver_id result) = mset (map fst ?kept)"
      unfolding result ids[symmetric] by simp
    have t: "map nd_driver_id (filter (\<lambda>e. nd_distance_km e = k) result)
              = map fst (filter (\<lambda>p. within_radius ops origin radius_km p
                                        \<and> reported_km ops origin p = k) ?dl)" for k
    proof -
      have "filter (\<lambda>e. nd_distance_km e = k) result = filter (\<lambda>e. nd_distance_km e = k) found"
        unfolding result by (rule sort_key_stable)
      moreover have "map nd_driver_id (filter (\<lambda>e. nd_distance_km e = k) found)
          = map fst (filter (\<lambda>p. reported_km ops origin p = k) ?kept)"
        using filter_fst_of_pairs[OF pairs, of k] by simp
      ultimately show ?thesis by (simp add: conj_commute)
    qed
    have d: "distinct (map nd_driver_id result)" if "distinct (map fst ?dl)"
    proof -
      have "distinct (map fst ?kept)" using that by (rule distinct_map_filter)
      then show ?thesis using m mset_eq_imp_distinct_iff by blast
    qed
    show ?thesis using s m t d by blast
  qed
  show ?thesis using ret props by blast
qed

theorem find_nearby_drivers_sorted_within_radius_witness:
  "(case find_nearby_drivers exact_ops tied_drivers origin0 5 of
      Inl e \<Rightarrow> False
    | Inr result \<Rightarrow>
        sorted (map nd_distance_km result) \<and> distinct (map nd_driver_id result))"
proof -
  have h: "list_all (distances_return exact_ops origin0) (driver_locations tied_drivers)"
    by (simp add: tied_drivers_def distances_return_def near_distances)
  have d: "distinct (map fst (driver_locations tied_drivers))"
    by (simp add: tied_drivers_def)
  note w = find_nearby_drivers_sorted_within_radius[of exact_ops origin0 tied_drivers 5]
  from conjunct1[OF w] h obtain result where
    res: "find_nearby_drivers exact_ops tied_drivers origin0 5 = Inr result"
    by (cases "find_nearby_drivers exact_ops tied_drivers origin0 5") auto
  from conjunct2[OF w, rule_format, OF res] d
  show ?thesis unfolding res by simp
qed

text \<open>
  The claim as stated fails for a result bound of 1 and two drivers 3.3 m and 1.1 m from
  the origin, the farther one stored first: both are returned, and the farther one comes
  first, since both report 0.0 km. The values are those of exact arithmetic; the doubles
  round to 0.0 as well.
\<close>

theorem find_nearby_drivers_not_truncated:
  "(case find_nearby_drivers exact_ops tied_drivers origin0 5 of
      Inl e \<Rightarrow> False
    | Inr result \<Rightarrow>
        map nd_driver_id result = [''d1'', ''d2'']
        \<and> result \<noteq> take 1 result
        \<and> calculate_distance exact_ops origin0 near1 = Inr (6371 * (3 / 100000 * deg_to_rad))
        \<and> calculate_distance exact_ops origin0 near2 = Inr (6371 * (1 / 100000 * deg_to_rad))
        \<and> 6371 * (1 / 100000 * deg_to_rad) < 6371 * (3 / 100000 * deg_to_rad))"
proof -
  have r: "py_round exact_ops (6371 * (3 / 100000 * deg_to_rad)) 2 = 0"
    "py_round exact_ops (6371 * (1 / 100000 * deg_to_rad)) 2 = 0"
    by (simp_all add: py_round_def round_half_even_def exact_ops_simps deg_to_rad_def Let_def)
  have e: "calculate_eta exact_ops near1 origin0 = Inr 3"
    "calculate_eta exact_ops near2 origin0 = Inr 3"
    by (simp_all add: calculate_eta_def near_distances exact_ops_simps py_int_def
        deg_to_rad_def Let_def)
  have "find_nearby_drivers exact_ops tied_drivers origin0 5
      = Inr [nearby_entry exact_ops ''d1'' near1 (6371 * (3 / 100000 * deg_to_rad)) 3,
             nearby_entry exact_ops ''d2'' near2 (6371 * (1 / 100000 * deg_to_rad)) 3]"
    by (simp add: find_nearby_drivers_def tied_drivers_def near_distances e
        nearby_entry_def r)
      (simp add: deg_to_rad_def py_round_def round_half_even_def exact_ops_simps Let_def)
  then show ?thesis
    by (simp add: near_distances nearby_entry_def) (simp add: deg_to_rad_def)
qed

section \<open>Ride progress\<close>

text \<open>
  \<open>track_ride_progress\<close> divides by the route's total distance without a guard: for a
  driver with a recorded location and a route whose \<open>distance_km\<close> is 0 it never returns
  a progress result, and it raises \<^verbatim>\<open>ZeroDivisionError\<close> whenever the distance
  computation before the division returns.
\<close>

lemma track_ride_progress_zero_distance:
  assumes "map_of (driver_locations st) driver_id = Some locs" and "locs \<noteq> []"
    and "distance_km route = 0"
  shows "isl (track_ride_progress ops st ride_id driver_id route)
     \<and> (\<not> isl (calculate_distance ops (last locs) (end_location route))
          \<longrightarrow> track_ride_progress ops st ride_id driver_id route = Inl ZeroDivisionError)"
  using assms
  by (auto simp: track_ride_progress_def track_def Let_def split: sum.splits)

text \<open>
  Claim C10 does not hold of the code at every input. For a driver at \<open>south0\<close> and a
  route of length 0 that ends at the antipodal \<open>north0\<close>, the distance computation raises
  \<^verbatim>\<open>ValueError\<close> (math domain error) before the division is reached, so no division by
  zero is performed.
\<close>

theorem track_ride_progress_math_domain_error:
  "distance_km north_route = 0
   \<and> track antipodal_driver ''d1'' = [south0]
   \<and> track_ride_progress double_ops antipodal_driver ''ride_1'' ''d1'' north_route
       = Inl (ValueError ''math domain error'')
   \<and> track_ride_progress double_ops antipodal_driver ''ride_1'' ''d1'' north_route
       \<noteq> Inl ZeroDivisionError"
  by (simp add: track_ride_progress_def track_def antipodal_driver_def north_route_def
      calculate_distance_south_north Let_def)

section \<open>Tokens\<close>

text \<open>
  Where the server's local time is UTC or ahead of it, an access token verifies at every
  moment from its issue up to its expiry, and the payload carries the subject's id, email
  and role.
\<close>

lemma verify_access_token_roundtrip:
  assumes "generate_tokens sm t0 ud = TokensOk access_token refresh_token expires_in token_type"
    and "t0 \<le> now" and "now < of_int (p_exp (token_payload access_token))"
    and "0 \<le> utc_offset"
  shows "\<exists>p. verify_token sm utc_offset now access_token ''access'' = VerifyOk p
           \<and> Some (p_user_id p) = ud_id ud \<and> Some (p_email p) = ud_email ud
           \<and> p_user_type p = Some (case ud_user_type ud of None \<Rightarrow> ''passenger'' | Some t \<Rightarrow> t)"
proof -
  have "of_int \<lfloor>t0\<rfloor> \<le> now" using assms(2) of_int_floor_le[of t0] by linarith
  then show ?thesis
    using assms
    by (auto simp: generate_tokens_def jwt_encode_def timegm_def verify_token_def
        jwt_decode_def fromtimestamp_def Let_def split: option.splits)
qed

text \<open>
  Claim C4 does not hold of the code. \<open>verify_token\<close> checks the expiry a second time
  itself and compares the UTC clock with the expiry converted to local time. On a server
  five hours behind UTC, the access token issued for a driver is refused as expired one
  minute after its issue, 59 minutes before its expiry.
\<close>

theorem verify_token_behind_utc_rejects_fresh_token:
  "(case generate_tokens sm0 1700000000 alice of
      TokensOk access_token refresh_token expires_in token_type \<Rightarrow>
        (1700000060 :: real) < of_int (p_exp (token_payload access_token))
        \<and> verify_token sm0 (- 18000) 1700000060 access_token ''access''
            = VerifyFailed ''Token expired''
    | TokensFailed e \<Rightarrow> False)"
  by (simp add: generate_tokens_def alice_def sm0_def security_init_def jwt_encode_def
      timegm_def access_token_expiry_def verify_token_def jwt_decode_def fromtimestamp_def
      Let_def)

text \<open>
  For every user whose tokens were issued with a role other than passenger, the refresh
  token carries no role; on a server whose local time is UTC or ahead of it,
  \<open>refresh_access_token\<close> on that refresh token, at any moment from its issue up to its
  expiry, returns a new access token for the same id and email whose role is passenger,
  not the original role.
\<close>

lemma refresh_drops_user_type:
  assumes "generate_tokens sm t0 ud = TokensOk access_token refresh_token expires_in token_type"
    and "ud_user_type ud = Some role" and "role \<noteq> ''passenger''"
    and "t0 \<le> now" and "now < of_int (p_exp (token_payload refresh_token))"
    and "0 \<le> utc_offset"
  shows "p_user_type (token_payload access_token) = Some role
         \<and> p_user_type (token_payload refresh_token) = None
         \<and> (\<exists>new_access. refresh_access_token sm utc_offset now refresh_token
                = RefreshOk new_access access_token_expiry
              \<and> p_type (token_payload new_access) = ''access''
              \<and> Some (p_user_id (token_payload new_access)) = ud_id ud
              \<and> Some (p_email (token_payload new_access)) = ud_email ud
              \<and> p_user_type (token_payload new_access) = Some ''passenger''
              \<and> p_user_type (token_payload new_access) \<noteq> Some role)"
proof -
  have "of_int \<lfloor>t0\<rfloor> \<le> now" using assms(4) of_int_floor_le[of t0] by linarith
  then show ?thesis
    using assms
    by (auto simp: generate_tokens_def jwt_encode_def timegm_def verify_token_def
        refresh_access_token_def jwt_decode_def fromtimestamp_def Let_def
        split: option.splits)
qed

text \<open>
  Claim C5 does not hold of the code. On a server five hours behind UTC, the refresh
  token issued for a driver is refused as expired 17999 seconds before its expiry, by the
  comparison of the UTC clock with the expiry in local time that also refuses the access
  token above; no access token is returned.
\<close>

theorem refresh_behind_utc_rejects_unexpired_token:
  "(case generate_tokens sm0 1700000000 alice of
      TokensOk access_token refresh_token expires_in token_type \<Rightarrow>
        (1702574001 :: real) < of_int (p_exp (token_payload refresh_token))
        \<and> refresh_access_token sm0 (- 18000) 1702574001 refresh_token
            = RefreshFailed ''Token expired''
    | TokensFailed e \<Rightarrow> False)"
  by (simp add: generate_tokens_def alice_def sm0_def security_init_def jwt_encode_def
      timegm_def refresh_token_expiry_def verify_token_def jwt_decode_def fromtimestamp_def
      refresh_access_token_def Let_def)

section \<open>Rate limiting and escalation\<close>

lemma dropWhile_none: "\<forall>x\<in>set xs. \<not> P x \<Longrightarrow> dropWhile P xs = xs"
  by (cases xs) auto

lemma dropWhile_hd_shorter: "xs \<noteq> [] \<Longrightarrow> P (hd xs) \<Longrightarrow> length (dropWhile P xs) < length xs"
  by (cases xs) (auto simp: less_Suc_eq_le length_dropWhile_le)

lemma log_fields [simp]:
  "rate_limits (log_security_event now ev data sm) = rate_limits sm"
  "blocked_ips (log_security_event now ev data sm) = blocked_ips sm"
  "suspicious_activities (log_security_event now ev data sm) = suspicious_activities sm"
  "jwt_secret_key (log_security_event now ev data sm) = jwt_secret_key sm"
  by (simp_all add: log_security_event_def Let_def)

lemma rate_limit_admit:
  assumes "remote_addr req \<notin> blocked_ips sm"
    and "int (length (dropWhile (\<lambda>t. t < now - of_int (W * 60))
                         (rate_limits sm (client_id_of md5 req)))) < N"
  shows "rate_limit md5 N W req now sm =
           (Proceed,
            sm\<lparr>rate_limits := (rate_limits sm)
                 (client_id_of md5 req :=
                    dropWhile (\<lambda>t. t < now - of_int (W * 60))
                      (rate_limits sm (client_id_of md5 req)) @ [now])\<rparr>)"
  using assms by (simp add: rate_limit_def Let_def)

lemma rate_limit_reject:
  assumes "remote_addr req \<notin> blocked_ips sm"
    and "N \<le> int (length (dropWhile (\<lambda>t. t < now - of_int (W * 60))
                         (rate_limits sm (client_id_of md5 req))))"
  shows "\<exists>sm2. rate_limit md5 N W req now sm =
           (Reject 429 ''Rate limit exceeded. Please try again later.'' (Some (W * 60)), sm2)
         \<and> rate_limits sm2 = (rate_limits sm)
                 (client_id_of md5 req :=
                    dropWhile (\<lambda>t. t < now - of_int (W * 60))
                      (rate_limits sm (client_id_of md5 req)))
         \<and> suspicious_activities sm2 = (suspicious_activities sm)
              (remote_addr req := suspicious_activities sm (remote_addr req) + 1)
         \<and> blocked_ips sm2 = (if 5 \<le> suspicious_activities sm (remote_addr req) + 1
              then insert (remote_addr req) (blocked_ips sm) else blocked_ips sm)"
  using assms by (simp add: rate_limit_def Let_def)

lemma rate_limit_blocked:
  assumes "remote_addr req \<in> blocked_ips sm"
  shows "\<exists>sm2. rate_limit md5 N W req now sm =
           (Reject 429 ''IP address blocked due to suspicious activity'' None, sm2)
         \<and> rate_limits sm2 = rate_limits sm
         \<and> suspicious_activities sm2 = suspicious_activities sm
         \<and> blocked_ips sm2 = blocked_ips sm"
  using assms by (simp add: rate_limit_def Let_def)

lemma same_call_sel:
  "c_request (same_call req N W t) = req" "c_now (same_call req N W t) = t"
  "c_max_requests (same_call req N W t) = N" "c_window_minutes (same_call req N W t) = W"
  by (simp_all add: same_call_def)

lemma admit_run:
  assumes "remote_addr req \<notin> blocked_ips sm"
    and "rate_limits sm (client_id_of md5 req) = pre"
    and "int (length (pre @ ts)) \<le> N"
    and "\<forall>t\<in>set (pre @ ts). now - of_int (W * 60) \<le> t \<and> t \<le> now"
    and "handle_requests md5 (map (same_call req N W) ts) sm = (as, sm1)"
  shows "as = replicate (length ts) Proceed
         \<and> rate_limits sm1 (client_id_of md5 req) = pre @ ts
         \<and> blocked_ips sm1 = blocked_ips sm
         \<and> suspicious_activities sm1 = suspicious_activities sm"
  using assms
proof (induction ts arbitrary: sm pre as sm1)
  case Nil
  then show ?case by simp
next
  case (Cons t ts)
  let ?cid = "client_id_of md5 req"
  have keep: "dropWhile (\<lambda>u. u < t - of_int (W * 60)) pre = pre"
  proof (rule dropWhile_none, rule ballI)
    fix x assume "x \<in> set pre"
    then have "now - of_int (W * 60) \<le> x" using Cons.prems(4) by simp
    moreover have "t \<le> now" using Cons.prems(4) by simp
    ultimately show "\<not> x < t - of_int (W * 60)" by linarith
  qed
  have lt: "int (length pre) < N" using Cons.prems(3) by simp
  define sm' where "sm' = sm\<lparr>rate_limits := (rate_limits sm)(?cid := pre @ [t])\<rparr>"
  have step: "rate_limit md5 N W req t sm = (Proceed, sm')"
    using rate_limit_admit[of req sm t W md5 N] Cons.prems(1,2) keep lt
    by (simp add: sm'_def)
  obtain as' where run: "handle_requests md5 (map (same_call req N W) ts) sm' = (as', sm1)"
    and as: "as = Proceed # as'"
    using Cons.prems(5) step
    by (auto simp: same_call_sel split: prod.splits)
  have "as' = replicate (length ts) Proceed
         \<and> rate_limits sm1 ?cid = (pre @ [t]) @ ts
         \<and> blocked_ips sm1 = blocked_ips sm'
         \<and> suspicious_activities sm1 = suspicious_activities sm'"
  proof (rule Cons.IH[OF _ _ _ _ run])
    show "remote_addr req \<notin> blocked_ips sm'" using Cons.prems(1) by (simp add: sm'_def)
    show "rate_limits sm' ?cid = pre @ [t]" by (simp add: sm'_def)
    show "int (length ((pre @ [t]) @ ts)) \<le> N" using Cons.prems(3) by simp
    show "\<forall>u\<in>set ((pre @ [t]) @ ts). now - of_int (W * 60) \<le> u \<and> u \<le> now"
      using Cons.prems(4) by simp
  qed
  then show ?case using as by (simp add: sm'_def)
qed

text \<open>
  Claim C2. For every client, every policy of \<open>N\<close> requests per \<open>W\<close> minutes and every
  source address that is not blocked: when \<open>N\<close> requests of the client arrive within one
  window on an empty record, all are admitted; the next request inside that window is
  rejected with a retry-after of \<open>W * 60\<close> seconds and the record of timestamps is left as
  it was; and in every later state that still holds those timestamps and has not blocked
  the address, a request that arrives once the oldest of them has left the trailing
  window is admitted again and recorded. The rejection blocks the address only when it is
  the address's fifth violation.
\<close>

theorem rate_window_monotonicity:
  assumes "remote_addr req \<notin> blocked_ips sm"
    and "rate_limits sm (client_id_of md5 req) = []"
    and "int (length ts) = N"
    and "\<forall>t\<in>set ts. now - of_int (W * 60) \<le> t \<and> t \<le> now"
    and "handle_requests md5 (map (same_call req N W) ts) sm = (as, sm1)"
  shows "as = replicate (length ts) Proceed
     \<and> rate_limits sm1 (client_id_of md5 req) = ts
     \<and> remote_addr req \<notin> blocked_ips sm1
     \<and> (\<exists>sm2. rate_limit md5 N W req now sm1
            = (Reject 429 ''Rate limit exceeded. Please try again later.'' (Some (W * 60)), sm2)
          \<and> rate_limits sm2 (client_id_of md5 req) = ts
          \<and> blocked_ips sm2
              = (if 5 \<le> suspicious_activities sm (remote_addr req) + 1
                 then insert (remote_addr req) (blocked_ips sm) else blocked_ips sm))
     \<and> (\<forall>st later.
           remote_addr req \<notin> blocked_ips st \<and> rate_limits st (client_id_of md5 req) = ts
             \<and> ts \<noteq> [] \<and> hd ts < later - of_int (W * 60)
           \<longrightarrow> (\<exists>st2. rate_limit md5 N W req later st = (Proceed, st2)
                \<and> rate_limits st2 (client_id_of md5 req)
                    = dropWhile (\<lambda>t. t < later - of_int (W * 60)) ts @ [later]))"
proof -
  let ?cid = "client_id_of md5 req"
  have run: "as = replicate (length ts) Proceed
         \<and> rate_limits sm1 ?cid = [] @ ts
         \<and> blocked_ips sm1 = blocked_ips sm
         \<and> suspicious_activities sm1 = suspicious_activities sm"
    by (rule admit_run[OF assms(1,2) _ _ assms(5)]) (use assms(3,4) in simp_all)
  then have dq: "rate_limits sm1 ?cid = ts" and nb: "remote_addr req \<notin> blocked_ips sm1"
    using assms(1) by simp_all
  have keep: "dropWhile (\<lambda>t. t < now - of_int (W * 60)) ts = ts"
    by (rule dropWhile_none) (use assms(4) in auto)
  have rej: "\<exists>sm2. rate_limit md5 N W req now sm1
            = (Reject 429 ''Rate limit exceeded. Please try again later.'' (Some (W * 60)), sm2)
          \<and> rate_limits sm2 ?cid = ts
          \<and> blocked_ips sm2
              = (if 5 \<le> suspicious_activities sm (remote_addr req) + 1
                 then insert (remote_addr req) (blocked_ips sm) else blocked_ips sm)"
    using rate_limit_reject[of req sm1 N now W md5] nb dq keep assms(3) run by auto
  have adm: "\<exists>st2. rate_limit md5 N W req later st = (Proceed, st2)
                \<and> rate_limits st2 ?cid
                    = dropWhile (\<lambda>t. t < later - of_int (W * 60)) ts @ [later]"
    if "remote_addr req \<notin> blocked_ips st" "rate_limits st ?cid = ts"
       "ts \<noteq> []" "hd ts < later - of_int (W * 60)" for st later
  proof -
    have "length (dropWhile (\<lambda>t. t < later - of_int (W * 60)) ts) < length ts"
      using that(3,4) by (intro dropWhile_hd_shorter)
    then have "int (length (dropWhile (\<lambda>t. t < later - of_int (W * 60))
                  (rate_limits st ?cid))) < N"
      using assms(3) that(2) by simp
    from rate_limit_admit[OF that(1) this] show ?thesis by (simp add: that(2))
  qed
  show ?thesis using run nb rej adm by simp
qed

theorem rate_window_monotonicity_witness:
  "fst (handle_requests id (map (same_call req0 5 15) [0, 60, 120, 180, 240]) sm0)
     = [Proceed, Proceed, Proceed, Proceed, Proceed]
   \<and> fst (rate_limit id 5 15 req0 300
            (snd (handle_requests id (map (same_call req0 5 15) [0, 60, 120, 180, 240]) sm0)))
     = Reject 429 ''Rate limit exceeded. Please try again later.'' (Some 900)
   \<and> fst (rate_limit id 5 15 req0 901
            (snd (rate_limit id 5 15 req0 300
              (snd (handle_requests id (map (same_call req0 5 15) [0, 60, 120, 180, 240])
                     sm0)))))
     = Proceed"
proof -
  let ?ts = "[0, 60, 120, 180, 240] :: real list"
  obtain as sm1 where run: "handle_requests id (map (same_call req0 5 15) ?ts) sm0 = (as, sm1)"
    by (cases "handle_requests id (map (same_call req0 5 15) ?ts) sm0")
  have h1: "remote_addr req0 \<notin> blocked_ips sm0"
    by (simp add: sm0_def security_init_def)
  have h2: "rate_limits sm0 (client_id_of id req0) = []"
    by (simp add: sm0_def security_init_def)
  have h3: "int (length ?ts) = 5" by simp
  have h4: "\<forall>t\<in>set ?ts. 300 - of_int (15 * 60) \<le> t \<and> t \<le> 300" by simp
  note w = rate_window_monotonicity[OF h1 h2 h3 h4 run]
  have a: "as = [Proceed, Proceed, Proceed, Proceed, Proceed]"
    using conjunct1[OF w] by (simp add: numeral_eq_Suc)
  obtain sm2 where b: "rate_limit id 5 15 req0 300 sm1
      = (Reject 429 ''Rate limit exceeded. Please try again later.'' (Some (15 * 60)), sm2)"
    and dq: "rate_limits sm2 (client_id_of id req0) = ?ts"
    and bl: "blocked_ips sm2
              = (if 5 \<le> suspicious_activities sm0 (remote_addr req0) + 1
                 then insert (remote_addr req0) (blocked_ips sm0) else blocked_ips sm0)"
    using conjunct1[OF conjunct2[OF conjunct2[OF conjunct2[OF w]]]] by blast
  have nb: "remote_addr req0 \<notin> blocked_ips sm2"
    unfolding bl by (simp add: sm0_def security_init_def)
  have h5: "remote_addr req0 \<notin> blocked_ips sm2 \<and> rate_limits sm2 (client_id_of id req0) = ?ts
      \<and> ?ts \<noteq> [] \<and> hd ?ts < 901 - of_int (15 * 60)"
    using nb dq by simp
  obtain sm3 where c: "rate_limit id 5 15 req0 901 sm2 = (Proceed, sm3)"
    using conjunct2[OF conjunct2[OF conjunct2[OF conjunct2[OF w]]], rule_format, OF h5]
    by blast
  show ?thesis unfolding run by (simp add: a b c)
qed

lemma rate_limit_cases:
  obtains (blocked) sm2 where "remote_addr req \<in> blocked_ips sm"
      "rate_limit md5 N W req now sm
         = (Reject 429 ''IP address blocked due to suspicious activity'' None, sm2)"
      "rate_limits sm2 = rate_limits sm"
      "suspicious_activities sm2 = suspicious_activities sm"
      "blocked_ips sm2 = blocked_ips sm"
  | (rejected) sm2 where "remote_addr req \<notin> blocked_ips sm"
      "rate_limit md5 N W req now sm
         = (Reject 429 ''Rate limit exceeded. Please try again later.'' (Some (W * 60)), sm2)"
      "suspicious_activities sm2 = (suspicious_activities sm)
              (remote_addr req := suspicious_activities sm (remote_addr req) + 1)"
      "blocked_ips sm2 = (if 5 \<le> suspicious_activities sm (remote_addr req) + 1
              then insert (remote_addr req) (blocked_ips sm) else blocked_ips sm)"
  | (admitted) sm2 where "remote_addr req \<notin> blocked_ips sm"
      "rate_limit md5 N W req now sm = (Proceed, sm2)"
      "suspicious_activities sm2 = suspicious_activities sm"
      "blocked_ips sm2 = blocked_ips sm"
proof (cases "remote_addr req \<in> blocked_ips sm")
  case True
  with rate_limit_blocked[OF True, of md5 N W now] blocked show ?thesis by blast
next
  case nb: False
  show ?thesis
  proof (cases "N \<le> int (length (dropWhile (\<lambda>t. t < now - of_int (W * 60))
                         (rate_limits sm (client_id_of md5 req))))")
    case True
    from rate_limit_reject[OF nb True] rejected nb show ?thesis by blast
  next
    case False
    then have "int (length (dropWhile (\<lambda>t. t < now - of_int (W * 60))
                         (rate_limits sm (client_id_of md5 req)))) < N" by simp
    from rate_limit_admit[OF nb this] admitted[OF nb] show ?thesis by simp
  qed
qed

lemma rate_limit_step:
  assumes "escalation_inv sm ip" and "rate_limit md5 N W req now sm = (a, sm1)"
  shows "escalation_inv sm1 ip
       \<and> suspicious_activities sm1 ip
           = suspicious_activities sm ip
             + (if remote_addr req = ip \<and> rate_limit_rejection a then 1 else 0)"
proof (cases rule: rate_limit_cases[of req sm md5 N W now])
  case (blocked sm2)
  then have "a = Reject 429 ''IP address blocked due to suspicious activity'' None" "sm1 = sm2"
    using assms(2) by simp_all
  then show ?thesis using blocked assms(1)
    by (simp add: escalation_inv_def rate_limit_rejection_def)
next
  case (rejected sm2)
  then have a: "a = Reject 429 ''Rate limit exceeded. Please try again later.'' (Some (W * 60))"
    and sm1: "sm1 = sm2"
    using assms(2) by simp_all
  show ?thesis
  proof (cases "remote_addr req = ip")
    case True
    then show ?thesis using rejected assms(1) a sm1
      by (auto simp: escalation_inv_def rate_limit_rejection_def)
  next
    case False
    then show ?thesis using rejected assms(1) a sm1
      by (auto simp: escalation_inv_def rate_limit_rejection_def)
  qed
next
  case (admitted sm2)
  then have "a = Proceed" "sm1 = sm2" using assms(2) by simp_all
  then show ?thesis using admitted assms(1)
    by (simp add: escalation_inv_def rate_limit_rejection_def)
qed

lemma rejections_Cons:
  "rejections ip (c # cs) (a # as)
     = (if remote_addr (c_request c) = ip \<and> rate_limit_rejection a then 1 else 0)
       + rejections ip cs as"
  by (simp add: rejections_def)

lemma handle_requests_count:
  assumes "escalation_inv sm ip" and "handle_requests md5 cs sm = (as, sm')"
  shows "escalation_inv sm' ip
       \<and> suspicious_activities sm' ip = suspicious_activities sm ip + int (rejections ip cs as)"
  using assms
proof (induction cs arbitrary: sm as sm')
  case Nil
  then show ?case by (simp add: rejections_def)
next
  case (Cons c cs)
  obtain a sm1 where step: "rate_limit md5 (c_max_requests c) (c_window_minutes c)
                       (c_request c) (c_now c) sm = (a, sm1)"
    by (cases "rate_limit md5 (c_max_requests c) (c_window_minutes c)
                       (c_request c) (c_now c) sm")
  obtain as' where run: "handle_requests md5 cs sm1 = (as', sm')" and as: "as = a # as'"
    using Cons.prems(2) step by (auto split: prod.splits)
  note s = rate_limit_step[OF Cons.prems(1) step]
  note r = Cons.IH[OF conjunct1[OF s] run]
  show ?case using s r unfolding as rejections_Cons by simp
qed

text \<open>
  Claim C3. Take a manager on which a source address has no recorded violation and is
  not blocked, and any run of requests through the limiter. The address's counter then
  equals the number of its requests answered by a rate-limit rejection, so each such
  rejection adds one; that number never exceeds 5, and the address is in the blocked set
  exactly when it is 5. A further rate-limit rejection of the address raises the counter
  by one and blocks the address exactly when it is the fifth, so the fifth rejection is
  itself an ordinary rate-limit rejection. Once the address is blocked, every request
  from it is rejected as blocked, and the windows, the counters and the blocked set stay
  as they are.
\<close>

theorem escalation_after_five_rejections:
  assumes "suspicious_activities sm ip = 0" and "ip \<notin> blocked_ips sm"
    and "handle_requests md5 cs sm = (as, sm')"
  shows "suspicious_activities sm' ip = int (rejections ip cs as)
     \<and> rejections ip cs as \<le> 5
     \<and> (ip \<in> blocked_ips sm' \<longleftrightarrow> rejections ip cs as = 5)
     \<and> (\<forall>req N W now a sm2.
           remote_addr req = ip \<and> rate_limit md5 N W req now sm' = (a, sm2)
             \<and> rate_limit_rejection a
           \<longrightarrow> suspicious_activities sm2 ip = int (rejections ip cs as) + 1
               \<and> (ip \<in> blocked_ips sm2 \<longleftrightarrow> rejections ip cs as = 4))
     \<and> (ip \<in> blocked_ips sm' \<longrightarrow>
          (\<forall>req N W now. remote_addr req = ip \<longrightarrow>
             (\<exists>sm2. rate_limit md5 N W req now sm'
                  = (Reject 429 ''IP address blocked due to suspicious activity'' None, sm2)
                \<and> rate_limits sm2 = rate_limits sm'
                \<and> suspicious_activities sm2 = suspicious_activities sm'
                \<and> blocked_ips sm2 = blocked_ips sm')))"
proof -
  have inv0: "escalation_inv sm ip" using assms(1,2) by (simp add: escalation_inv_def)
  from handle_requests_count[OF inv0 assms(3)]
  have inv: "escalation_inv sm' ip"
    and cnt: "suspicious_activities sm' ip = int (rejections ip cs as)"
    using assms(1) by simp_all
  have le: "rejections ip cs as \<le> 5" using inv cnt by (simp add: escalation_inv_def)
  have bl: "ip \<in> blocked_ips sm' \<longleftrightarrow> rejections ip cs as = 5"
    using inv cnt by (simp add: escalation_inv_def)
  have nxt: "suspicious_activities sm2 ip = int (rejections ip cs as) + 1
               \<and> (ip \<in> blocked_ips sm2 \<longleftrightarrow> rejections ip cs as = 4)"
    if "remote_addr req = ip" "rate_limit md5 N W req now sm' = (a, sm2)"
       "rate_limit_rejection a" for req N W now a sm2
  proof -
    from rate_limit_step[OF inv that(2)] that(1,3)
    have "escalation_inv sm2 ip" "suspicious_activities sm2 ip = suspicious_activities sm' ip + 1"
      by simp_all
    then show ?thesis using cnt by (auto simp: escalation_inv_def)
  qed
  have aft: "\<exists>sm2. rate_limit md5 N W req now sm'
                  = (Reject 429 ''IP address blocked due to suspicious activity'' None, sm2)
                \<and> rate_limits sm2 = rate_limits sm'
                \<and> suspicious_activities sm2 = suspicious_activities sm'
                \<and> blocked_ips sm2 = blocked_ips sm'"
    if "ip \<in> blocked_ips sm'" "remote_addr req = ip" for req N W now
    using rate_limit_blocked[of req sm' md5 N W now] that by simp
  show ?thesis using cnt le bl nxt aft by blast
qed

theorem escalation_after_five_rejections_witness:
  "fst (handle_requests id (map (same_call req0 0 15) [0, 1, 2, 3, 4]) sm0)
     = replicate 5 (Reject 429 ''Rate limit exceeded. Please try again later.'' (Some 900))
   \<and> suspicious_activities
        (snd (handle_requests id (map (same_call req0 0 15) [0, 1, 2, 3, 4]) sm0)) ''10.0.0.1'' = 5
   \<and> ''10.0.0.1'' \<in> blocked_ips
        (snd (handle_requests id (map (same_call req0 0 15) [0, 1, 2, 3, 4]) sm0))
   \<and> fst (rate_limit id 0 15 req0 5
        (snd (handle_requests id (map (same_call req0 0 15) [0, 1, 2, 3, 4]) sm0)))
      = Reject 429 ''IP address blocked due to suspicious activity'' None"
proof -
  let ?cs = "map (same_call req0 0 15) [0, 1, 2, 3, 4]"
  obtain as sm' where run: "handle_requests id ?cs sm0 = (as, sm')"
    by (cases "handle_requests id ?cs sm0")
  have h1: "suspicious_activities sm0 ''10.0.0.1'' = 0"
    and h2: "''10.0.0.1'' \<notin> blocked_ips sm0"
    by (simp_all add: sm0_def security_init_def)
  have as: "as = replicate 5 (Reject 429 ''Rate limit exceeded. Please try again later.'' (Some 900))"
    using run
    by (simp add: same_call_def req0_def sm0_def security_init_def rate_limit_def
        client_id_of_def log_security_event_def Let_def numeral_eq_Suc)
  have r: "rejections ''10.0.0.1'' ?cs as = 5"
    by (simp add: as rejections_def same_call_def req0_def rate_limit_rejection_def
        numeral_eq_Suc)
  note e = escalation_after_five_rejections[OF h1 h2 run]
  have s: "suspicious_activities sm' ''10.0.0.1'' = 5" using conjunct1[OF e] r by simp
  have b: "''10.0.0.1'' \<in> blocked_ips sm'"
    using conjunct1[OF conjunct2[OF conjunct2[OF e]]] r by simp
  have ra: "remote_addr req0 = ''10.0.0.1''" by (simp add: req0_def)
  obtain sm2 where n: "rate_limit id 0 15 req0 5 sm'
      = (Reject 429 ''IP address blocked due to suspicious activity'' None, sm2)"
    using conjunct2[OF conjunct2[OF conjunct2[OF conjunct2[OF e]]], rule_format, OF b ra]
    by blast
  show ?thesis unfolding run by (simp add: as s b n)
qed

end
